theory Spec2Isabelle
  imports Complex_Main "HOL-Library.Word" "HOL-Library.Log_Nat"
begin

section \<open>Thermador UCVM36XS to Cloudline A6 fan translator\<close>

text \<open>
  The repository holds two sketches for the same board (an Arduino Nano, ATmega328P):
  \<^item> the compact five-level sketch (\<^verbatim>\<open>Arduino-Translator-...-Fan.ino\<close>): four active-low
    speed wires, a table \<^verbatim>\<open>FAN_SPEEDS\<close> of five normalized speeds and a manual mode;
  \<^item> the earlier three-wire sketch (\<^verbatim>\<open>unnamed/part_000\<close>): three active-low speed wires,
    four speed macros and no manual mode.
  Functions of the three-wire sketch whose names clash with the five-level sketch carry
  the suffix \<open>3\<close>.
\<close>

subsection \<open>Input sampling\<close>

text \<open>
  \<^verbatim>\<open>digitalRead\<close> yields HIGH or LOW; a field is \<open>True\<close> when the pin reads HIGH. The
  inputs have pull-ups, so a wire is asserted when its pin reads LOW.
\<close>

record pins =
  SPEED1_PIN :: bool
  SPEED2_PIN :: bool
  SPEED3_PIN :: bool
  SPEED4_PIN :: bool

definition readSpeedLevel :: "pins \<Rightarrow> int" where
  "readSpeedLevel p =
     (if \<not> SPEED4_PIN p then 4
      else if \<not> SPEED3_PIN p then 3
      else if \<not> SPEED2_PIN p then 2
      else if \<not> SPEED1_PIN p then 1
      else 0)"

record pins3 =
  THERMADOR_SPEED1_PIN :: bool
  THERMADOR_SPEED2_PIN :: bool
  THERMADOR_SPEED3_PIN :: bool

text \<open>\<^verbatim>\<open>CONTROL_MODE\<close> is \<^verbatim>\<open>CONTROL_MODE_DIGITAL\<close>: the analog branch is not taken.\<close>

definition readThermadorSpeed :: "pins3 \<Rightarrow> int" where
  "readThermadorSpeed p =
     (let speed1 = \<not> THERMADOR_SPEED1_PIN p;
          speed2 = \<not> THERMADOR_SPEED2_PIN p;
          speed3 = \<not> THERMADOR_SPEED3_PIN p
      in if speed3 then 3
         else if speed2 then 2
         else if speed1 then 1
         else 0)"

text \<open>The tiers whose wire is asserted (statement of the sampling contract).\<close>

definition asserted :: "pins \<Rightarrow> int set" where
  "asserted p =
     (if SPEED1_PIN p then {} else {1}) \<union> (if SPEED2_PIN p then {} else {2}) \<union>
     (if SPEED3_PIN p then {} else {3}) \<union> (if SPEED4_PIN p then {} else {4})"

definition asserted3 :: "pins3 \<Rightarrow> int set" where
  "asserted3 p =
     (if THERMADOR_SPEED1_PIN p then {} else {1}) \<union>
     (if THERMADOR_SPEED2_PIN p then {} else {2}) \<union>
     (if THERMADOR_SPEED3_PIN p then {} else {3})"

subsection \<open>Single-precision arithmetic\<close>

text \<open>
  On the ATmega328P both \<^verbatim>\<open>float\<close> and \<^verbatim>\<open>double\<close> are IEEE-754 binary32. A value is
  modelled by the rational number it denotes, and every literal, conversion and arithmetic
  operation rounds its exact result to the nearest number with a 24-bit significand, ties
  to even. The exponent range is left unbounded: the values of these sketches are 0 or lie
  between \<open>2\<^sup>-\<^sup>3\<close> and \<open>2\<^sup>3\<^sup>8\<close>, far from overflow and from the subnormal range.
\<close>

type_synonym float = rat
type_synonym ulong = "32 word"

definition pow2 :: "int \<Rightarrow> rat" where
  "pow2 e = (if 0 \<le> e then 2 ^ nat e else 1 / 2 ^ nat (- e))"

text \<open>The binary exponent \<open>\<lfloor>log\<^sub>2 x\<rfloor>\<close> of a positive rational.\<close>

definition bexp :: "rat \<Rightarrow> int" where
  "bexp x = (if 1 \<le> x then int (floorlog 2 (nat \<lfloor>x\<rfloor>)) - 1
             else - int (floorlog 2 (nat (\<lceil>1 / x\<rceil> - 1))))"

text \<open>Rounding to the nearest integer, ties to even.\<close>

definition rne :: "rat \<Rightarrow> int" where
  "rne q = (let f = \<lfloor>q\<rfloor>; r = q - of_int f
            in if r < 1 / 2 then f else if 1 / 2 < r then f + 1
               else if even f then f else f + 1)"

definition rnd32 :: "rat \<Rightarrow> float" where
  "rnd32 x = (if x = 0 then 0
              else let u = bexp \<bar>x\<bar> - 23 in of_int (rne (x / pow2 u)) * pow2 u)"

definition fadd :: "float \<Rightarrow> float \<Rightarrow> float" where
  "fadd a b = rnd32 (a + b)"

definition fsub :: "float \<Rightarrow> float \<Rightarrow> float" where
  "fsub a b = rnd32 (a - b)"

definition fmul :: "float \<Rightarrow> float \<Rightarrow> float" where
  "fmul a b = rnd32 (a * b)"

definition fdiv :: "float \<Rightarrow> float \<Rightarrow> float" where
  "fdiv a b = rnd32 (a / b)"

definition float_of_ulong :: "ulong \<Rightarrow> float" where
  "float_of_ulong w = rnd32 (of_nat (unat w))"

text \<open>The cast \<^verbatim>\<open>(uint16_t) x\<close> of a float truncates towards zero.\<close>

definition uint16_of_float :: "float \<Rightarrow> 16 word" where
  "uint16_of_float x = word_of_int (if 0 \<le> x then \<lfloor>x\<rfloor> else \<lceil>x\<rceil>)"

text \<open>The macro \<^verbatim>\<open>constrain(amt, low, high)\<close> of \<^verbatim>\<open>Arduino.h\<close>.\<close>

definition constrain :: "float \<Rightarrow> float \<Rightarrow> float \<Rightarrow> float" where
  "constrain amt low high = (if amt < low then low else if high < amt then high else amt)"

subsection \<open>The five-level sketch: state and speed mapping\<close>

definition FAN_SPEEDS :: "float list" where
  "FAN_SPEEDS = [rnd32 0, rnd32 (25 / 100), rnd32 (50 / 100), rnd32 (75 / 100), rnd32 1]"

text \<open>
  The read \<^verbatim>\<open>FAN_SPEEDS[i]\<close>. A read outside the five entries is undefined behaviour in
  C; the model makes it \<open>None\<close>.
\<close>

definition FAN_SPEEDS_at :: "int \<Rightarrow> float option" where
  "FAN_SPEEDS_at i =
     (if 0 \<le> i \<and> i < int (length FAN_SPEEDS) then Some (FAN_SPEEDS ! nat i) else None)"

text \<open>
  The globals of the sketch, the function-local statics of \<^verbatim>\<open>loop\<close> (\<open>lastUpdate\<close>,
  \<open>lastStatus\<close>) and of \<^verbatim>\<open>updateRPM\<close> (\<open>lastRPMTime\<close>, \<open>lastCount\<close>), the timer compare
  register \<open>OCR1A\<close> and the level last written to the LED pin. Serial output is not
  modelled.
\<close>

record state =
  currentSpeed :: float
  speedLevel :: int
  lastChange :: ulong
  tachCount :: ulong
  rpm :: float
  manualMode :: bool
  lastUpdate :: ulong
  lastStatus :: ulong
  lastRPMTime :: ulong
  lastCount :: ulong
  OCR1A :: "16 word"
  LED :: bool

definition setFanSpeed :: "float \<Rightarrow> state \<Rightarrow> state" where
  "setFanSpeed speed0 s =
     (let speed = constrain speed0 (rnd32 0) (rnd32 1);
          s = s\<lparr>currentSpeed := speed\<rparr>
      in if speed = 0 then s\<lparr>OCR1A := 0\<rparr>
         else let scaled = fadd (rnd32 (20 / 100)) (fmul speed (rnd32 (80 / 100)))
              in s\<lparr>OCR1A := uint16_of_float (fmul 320 scaled)\<rparr>)"

definition tachISR :: "state \<Rightarrow> state" where
  "tachISR s = s\<lparr>tachCount := tachCount s + 1\<rparr>"

text \<open>
  \<^verbatim>\<open>updateRPM\<close> calls \<^verbatim>\<open>millis()\<close> twice: \<open>t\<close> is the reading of the test, \<open>t'\<close> the
  reading stored as the new window start.
\<close>

definition updateRPM :: "ulong \<Rightarrow> ulong \<Rightarrow> state \<Rightarrow> state" where
  "updateRPM t t' s =
     (if 1000 \<le> t - lastRPMTime s then
        let pulses = tachCount s - lastCount s
        in s\<lparr>rpm := fdiv (fmul (float_of_ulong pulses) 60) 2,
              lastCount := tachCount s,
              lastRPMTime := t'\<rparr>
      else s)"

definition updateLED :: "ulong \<Rightarrow> state \<Rightarrow> state" where
  "updateLED t s =
     (let interval :: ulong =
            (if speedLevel s = 1 then 1000 else if speedLevel s = 2 then 500
             else if speedLevel s = 3 then 250 else if speedLevel s = 4 then 100 else 2000)
      in s\<lparr>LED := ((t div interval) mod 2 \<noteq> 0)\<rparr>)"

subsection \<open>The five-level sketch: commands and control loop\<close>

text \<open>
  \<^verbatim>\<open>String::trim\<close> and \<^verbatim>\<open>String::toLowerCase\<close> of the Arduino core, built on
  \<^verbatim>\<open>isspace\<close> and \<^verbatim>\<open>tolower\<close> of the C locale.
\<close>

definition isspace :: "char \<Rightarrow> bool" where
  "isspace c = (of_char c = (32::nat) \<or> (9 \<le> (of_char c :: nat) \<and> (of_char c :: nat) \<le> 13))"

definition tolower :: "char \<Rightarrow> char" where
  "tolower c =
     (if 65 \<le> (of_char c :: nat) \<and> (of_char c :: nat) \<le> 90
      then char_of (of_char c + (32::nat)) else c)"

definition trim :: "string \<Rightarrow> string" where
  "trim str = rev (dropWhile isspace (rev (dropWhile isspace str)))"

definition toLowerCase :: "string \<Rightarrow> string" where
  "toLowerCase str = map tolower str"

text \<open>The \<^verbatim>\<open>for\<close> loop of \<^verbatim>\<open>runTest\<close>, from index \<open>i\<close> on.\<close>

function runTest_for :: "int \<Rightarrow> state \<Rightarrow> state option" where
  "runTest_for i s =
     (if i \<le> 4 then
        (case FAN_SPEEDS_at i of
           None \<Rightarrow> None
         | Some v \<Rightarrow> runTest_for (i + 1) (setFanSpeed v s))
      else Some s)"
  by pat_completeness auto
termination
  by (relation "measure (\<lambda>(i, s). nat (5 - i))") auto

declare runTest_for.simps [simp del]

definition runTest :: "state \<Rightarrow> state option" where
  "runTest s = map_option (\<lambda>s. (setFanSpeed 0 s)\<lparr>speedLevel := 0\<rparr>) (runTest_for 0 s)"

text \<open>
  \<^verbatim>\<open>handleCommands\<close>: the argument is the line \<^verbatim>\<open>Serial.readStringUntil\<close> returns, or
  \<open>None\<close> when \<^verbatim>\<open>Serial.available()\<close> is 0.
\<close>

definition handleCommands :: "string option \<Rightarrow> state \<Rightarrow> state option" where
  "handleCommands line s =
     (case line of
        None \<Rightarrow> Some s
      | Some str \<Rightarrow>
          let cmd = toLowerCase (trim str) in
          if cmd = ''off'' then
            map_option (\<lambda>v. (setFanSpeed v (s\<lparr>speedLevel := 0\<rparr>))\<lparr>manualMode := True\<rparr>)
              (FAN_SPEEDS_at 0)
          else if cmd = ''low'' then
            map_option (\<lambda>v. (setFanSpeed v (s\<lparr>speedLevel := 1\<rparr>))\<lparr>manualMode := True\<rparr>)
              (FAN_SPEEDS_at 1)
          else if cmd = ''medium'' then
            map_option (\<lambda>v. (setFanSpeed v (s\<lparr>speedLevel := 2\<rparr>))\<lparr>manualMode := True\<rparr>)
              (FAN_SPEEDS_at 2)
          else if cmd = ''high'' then
            map_option (\<lambda>v. (setFanSpeed v (s\<lparr>speedLevel := 3\<rparr>))\<lparr>manualMode := True\<rparr>)
              (FAN_SPEEDS_at 3)
          else if cmd = ''max'' then
            map_option (\<lambda>v. (setFanSpeed v (s\<lparr>speedLevel := 4\<rparr>))\<lparr>manualMode := True\<rparr>)
              (FAN_SPEEDS_at 4)
          else if cmd = ''auto'' then Some (s\<lparr>manualMode := False\<rparr>)
          else if cmd = ''status'' then Some s
          else if cmd = ''test'' then runTest s
          else Some s)"

text \<open>
  What one pass of \<^verbatim>\<open>loop\<close> reads from its environment: the speed pins, the serial line
  and one clock reading for every call of \<^verbatim>\<open>millis()\<close>, in program order. A reading whose
  call is skipped is not used.
\<close>

record 'p input =
  millis_gate :: ulong
  millis_update :: ulong
  pins_in :: 'p
  millis_debounce :: ulong
  millis_change :: ulong
  millis_rpm :: ulong
  millis_rpm_mark :: ulong
  millis_status :: ulong
  millis_status_mark :: ulong
  serial_in :: "string option"
  millis_led :: ulong

text \<open>The block "check inputs every 50ms (only if not in manual mode)" of \<^verbatim>\<open>loop\<close>.\<close>

definition checkInputs :: "pins input \<Rightarrow> state \<Rightarrow> state option" where
  "checkInputs i s =
     (if 50 < millis_gate i - lastUpdate s \<and> \<not> manualMode s then
        let s = s\<lparr>lastUpdate := millis_update i\<rparr>;
            newLevel = readSpeedLevel (pins_in i)
        in map_option (updateRPM (millis_rpm i) (millis_rpm_mark i))
             (if newLevel \<noteq> speedLevel s \<and> 100 < millis_debounce i - lastChange s then
                let s = s\<lparr>speedLevel := newLevel\<rparr>
                in map_option (\<lambda>v. (setFanSpeed v s)\<lparr>lastChange := millis_change i\<rparr>)
                     (FAN_SPEEDS_at (speedLevel s))
              else Some s)
      else Some s)"

text \<open>The block "status every 3 seconds" of \<^verbatim>\<open>loop\<close>; \<^verbatim>\<open>printStatus\<close> only prints.\<close>

definition statusTick :: "'p input \<Rightarrow> state \<Rightarrow> state" where
  "statusTick i s =
     (if 3000 < millis_status i - lastStatus s then s\<lparr>lastStatus := millis_status_mark i\<rparr>
      else s)"

definition loop :: "pins input \<Rightarrow> state \<Rightarrow> state option" where
  "loop i s =
     Option.bind (checkInputs i s) (\<lambda>s.
     Option.bind (handleCommands (serial_in i) (statusTick i s)) (\<lambda>s.
     Some (updateLED (millis_led i) s)))"

text \<open>The state \<^verbatim>\<open>setup\<close> leaves: the initialised globals, and the fan set to 0.\<close>

definition startup :: state where
  "startup = setFanSpeed (rnd32 0)
     \<lparr>currentSpeed = rnd32 0, speedLevel = 0, lastChange = 0, tachCount = 0, rpm = 0,
      manualMode = False, lastUpdate = 0, lastStatus = 0, lastRPMTime = 0, lastCount = 0,
      OCR1A = 0, LED = False\<rparr>"

text \<open>
  The states the sketch can be in between two passes of \<^verbatim>\<open>loop\<close>: tachometer
  interrupts are taken between passes.
\<close>

inductive reachable :: "state \<Rightarrow> bool" where
  start: "reachable startup"
| edge: "reachable s \<Longrightarrow> reachable (tachISR s)"
| pass: "reachable s \<Longrightarrow> loop i s = Some s' \<Longrightarrow> reachable s'"

subsection \<open>The three-wire sketch\<close>

definition FAN_OFF :: float where "FAN_OFF = rnd32 0"
definition FAN_LOW :: float where "FAN_LOW = rnd32 (3 / 10)"
definition FAN_MEDIUM :: float where "FAN_MEDIUM = rnd32 (6 / 10)"
definition FAN_HIGH :: float where "FAN_HIGH = rnd32 1"

text \<open>
  The globals that are read (\<open>lastDebounceTime\<close> and \<open>lastSpeedReading\<close> are never used),
  the statics of \<^verbatim>\<open>loop\<close> and \<^verbatim>\<open>updateRPM\<close>, the compare register and the LED level.
\<close>

record state3 =
  currentFanSpeed :: float
  currentSpeedLevel :: int
  lastSpeedChange :: ulong
  tachPulseCount :: ulong
  currentRPM :: float
  debounceDelay :: ulong
  lastUpdate3 :: ulong
  lastStatusPrint :: ulong
  lastRPMUpdate :: ulong
  lastPulseCount :: ulong
  OCR1A3 :: "16 word"
  STATUS_LED :: bool

definition setCloudlineSpeed :: "float \<Rightarrow> state3 \<Rightarrow> state3" where
  "setCloudlineSpeed speed0 s =
     (let speed = constrain speed0 (rnd32 0) (rnd32 1);
          s = s\<lparr>currentFanSpeed := speed\<rparr>
      in if speed = 0 then s\<lparr>OCR1A3 := 0\<rparr>
         else let minDuty = rnd32 (20 / 100);
                  scaledSpeed = fadd minDuty (fmul speed (fsub (rnd32 1) minDuty))
              in s\<lparr>OCR1A3 := uint16_of_float (fmul 320 scaledSpeed)\<rparr>)"

definition updateCloudlineSpeed :: "state3 \<Rightarrow> state3" where
  "updateCloudlineSpeed s =
     (let targetSpeed =
            (if currentSpeedLevel s = 0 then FAN_OFF
             else if currentSpeedLevel s = 1 then FAN_LOW
             else if currentSpeedLevel s = 2 then FAN_MEDIUM
             else if currentSpeedLevel s = 3 then FAN_HIGH
             else FAN_OFF)
      in setCloudlineSpeed targetSpeed s)"

definition tachISR3 :: "state3 \<Rightarrow> state3" where
  "tachISR3 s = s\<lparr>tachPulseCount := tachPulseCount s + 1\<rparr>"

definition updateRPM3 :: "ulong \<Rightarrow> ulong \<Rightarrow> state3 \<Rightarrow> state3" where
  "updateRPM3 t t' s =
     (if 1000 \<le> t - lastRPMUpdate s then
        let pulsesSinceLastUpdate = tachPulseCount s - lastPulseCount s
        in s\<lparr>currentRPM := fdiv (fmul (float_of_ulong pulsesSinceLastUpdate) 60) 2,
              lastPulseCount := tachPulseCount s,
              lastRPMUpdate := t'\<rparr>
      else s)"

definition updateStatusLED :: "ulong \<Rightarrow> state3 \<Rightarrow> state3" where
  "updateStatusLED t s =
     (let blinkInterval :: ulong =
            (if currentSpeedLevel s = 0 then 2000 else if currentSpeedLevel s = 1 then 1000
             else if currentSpeedLevel s = 2 then 500 else if currentSpeedLevel s = 3 then 200
             else 2000)
      in s\<lparr>STATUS_LED := ((t div blinkInterval) mod 2 \<noteq> 0)\<rparr>)"

definition runSpeedTest :: "state3 \<Rightarrow> state3" where
  "runSpeedTest s =
     (let s = setCloudlineSpeed FAN_OFF s;
          s = setCloudlineSpeed FAN_LOW s;
          s = setCloudlineSpeed FAN_MEDIUM s;
          s = setCloudlineSpeed FAN_HIGH s;
          s = setCloudlineSpeed FAN_OFF s
      in s\<lparr>currentSpeedLevel := 0\<rparr>)"

definition handleSerialCommands :: "string option \<Rightarrow> state3 \<Rightarrow> state3" where
  "handleSerialCommands line s =
     (case line of
        None \<Rightarrow> s
      | Some str \<Rightarrow>
          let command = toLowerCase (trim str) in
          if command = ''off'' then updateCloudlineSpeed (s\<lparr>currentSpeedLevel := 0\<rparr>)
          else if command = ''low'' then updateCloudlineSpeed (s\<lparr>currentSpeedLevel := 1\<rparr>)
          else if command = ''medium'' then updateCloudlineSpeed (s\<lparr>currentSpeedLevel := 2\<rparr>)
          else if command = ''high'' then updateCloudlineSpeed (s\<lparr>currentSpeedLevel := 3\<rparr>)
          else if command = ''status'' then s
          else if command = ''test'' then runSpeedTest s
          else s)"

text \<open>The block "check Thermador inputs every 50ms" of \<^verbatim>\<open>loop\<close>.\<close>

definition checkInputs3 :: "pins3 input \<Rightarrow> state3 \<Rightarrow> state3" where
  "checkInputs3 i s =
     (if 50 < millis_gate i - lastUpdate3 s then
        let s = s\<lparr>lastUpdate3 := millis_update i\<rparr>;
            newSpeedLevel = readThermadorSpeed (pins_in i);
            s = (if newSpeedLevel \<noteq> currentSpeedLevel s then
                   if debounceDelay s < millis_debounce i - lastSpeedChange s then
                     (updateCloudlineSpeed (s\<lparr>currentSpeedLevel := newSpeedLevel\<rparr>))
                       \<lparr>lastSpeedChange := millis_change i\<rparr>
                   else s
                 else s)
        in updateRPM3 (millis_rpm i) (millis_rpm_mark i) s
      else s)"

definition statusTick3 :: "'p input \<Rightarrow> state3 \<Rightarrow> state3" where
  "statusTick3 i s =
     (if 5000 < millis_status i - lastStatusPrint s
      then s\<lparr>lastStatusPrint := millis_status_mark i\<rparr> else s)"

definition loop3 :: "pins3 input \<Rightarrow> state3 \<Rightarrow> state3" where
  "loop3 i s =
     updateStatusLED (millis_led i)
       (handleSerialCommands (serial_in i) (statusTick3 i (checkInputs3 i s)))"

definition startup3 :: state3 where
  "startup3 = setCloudlineSpeed FAN_OFF
     \<lparr>currentFanSpeed = rnd32 0, currentSpeedLevel = 0, lastSpeedChange = 0,
      tachPulseCount = 0, currentRPM = 0, debounceDelay = 50, lastUpdate3 = 0,
      lastStatusPrint = 0, lastRPMUpdate = 0, lastPulseCount = 0, OCR1A3 = 0,
      STATUS_LED = False\<rparr>"

inductive reachable3 :: "state3 \<Rightarrow> bool" where
  start3: "reachable3 startup3"
| edge3: "reachable3 s \<Longrightarrow> reachable3 (tachISR3 s)"
| pass3: "reachable3 s \<Longrightarrow> reachable3 (loop3 i s)"

text \<open>The composed mapping from a speed level to the compare value written to the timer.\<close>

definition toDuty :: "int \<Rightarrow> 16 word option" where
  "toDuty L = map_option (\<lambda>v. OCR1A (setFanSpeed v startup)) (FAN_SPEEDS_at L)"

definition toDuty3 :: "int \<Rightarrow> 16 word" where
  "toDuty3 L = OCR1A3 (updateCloudlineSpeed (startup3\<lparr>currentSpeedLevel := L\<rparr>))"

subsection \<open>Commands, traces and example inputs\<close>

text \<open>The level a speed command asks for.\<close>

definition commandLevel :: "string \<Rightarrow> int option" where
  "commandLevel cmd =
     (if cmd = ''off'' then Some 0 else if cmd = ''low'' then Some 1
      else if cmd = ''medium'' then Some 2 else if cmd = ''high'' then Some 3
      else if cmd = ''max'' then Some 4 else None)"

text \<open>A pass is quiet when no line arrives or the line is not a speed, auto or test command.\<close>

definition quiet :: "string option \<Rightarrow> bool" where
  "quiet line =
     (case line of
        None \<Rightarrow> True
      | Some str \<Rightarrow>
          commandLevel (toLowerCase (trim str)) = None \<and>
          toLowerCase (trim str) \<noteq> ''auto'' \<and> toLowerCase (trim str) \<noteq> ''test'')"

fun run :: "pins input list \<Rightarrow> state \<Rightarrow> state option" where
  "run [] s = Some s"
| "run (i # is) s = Option.bind (loop i s) (run is)"

fun run3 :: "pins3 input list \<Rightarrow> state3 \<Rightarrow> state3" where
  "run3 [] s = s"
| "run3 (i # is) s = run3 is (loop3 i s)"

definition input_at :: "ulong \<Rightarrow> 'p \<Rightarrow> string option \<Rightarrow> 'p input" where
  "input_at t p line =
     \<lparr>millis_gate = t, millis_update = t, pins_in = p, millis_debounce = t,
      millis_change = t, millis_rpm = t, millis_rpm_mark = t, millis_status = t,
      millis_status_mark = t, serial_in = line, millis_led = t\<rparr>"

definition wires :: "bool \<Rightarrow> bool \<Rightarrow> bool \<Rightarrow> bool \<Rightarrow> pins" where
  "wires w1 w2 w3 w4 =
     \<lparr>SPEED1_PIN = \<not> w1, SPEED2_PIN = \<not> w2, SPEED3_PIN = \<not> w3, SPEED4_PIN = \<not> w4\<rparr>"

definition wires3 :: "bool \<Rightarrow> bool \<Rightarrow> bool \<Rightarrow> pins3" where
  "wires3 w1 w2 w3 =
     \<lparr>THERMADOR_SPEED1_PIN = \<not> w1, THERMADOR_SPEED2_PIN = \<not> w2,
      THERMADOR_SPEED3_PIN = \<not> w3\<rparr>"

section \<open>Theorems\<close>

subsection \<open>Properties of the rounding\<close>

lemma pow2_powi: "pow2 e = 2 powi e"
  by (simp add: pow2_def power_int_def inverse_eq_divide power_one_over)

lemma pow2_pos [simp]: "0 < pow2 e"
  by (simp add: pow2_powi)

lemma pow2_nonneg [simp]: "0 \<le> pow2 e"
  using pow2_pos [of e] by (rule less_imp_le)

lemma pow2_neq0 [simp]: "pow2 e \<noteq> 0"
  using pow2_pos [of e, THEN less_imp_neq] by (rule not_sym)

lemma pow2_add: "pow2 (a + b) = pow2 a * pow2 b"
  by (simp add: pow2_powi power_int_add)

lemma pow2_less_iff: "pow2 a < pow2 b \<longleftrightarrow> a < b"
proof
  assume "pow2 a < pow2 b"
  show "a < b"
  proof (rule ccontr)
    assume "\<not> a < b"
    then have "b \<le> a" by simp
    then have "pow2 b \<le> pow2 a"
      unfolding pow2_powi by (intro power_int_increasing) simp_all
    with \<open>pow2 a < pow2 b\<close> show False by simp
  qed
next
  assume "a < b"
  then show "pow2 a < pow2 b"
    unfolding pow2_powi by (intro power_int_strict_increasing) simp_all
qed

lemma pow2_le_iff: "pow2 a \<le> pow2 b \<longleftrightarrow> a \<le> b"
  using pow2_less_iff [of b a] by (auto simp: not_less [symmetric])

lemma pow2_nat: "pow2 (int n) = 2 ^ n"
  by (simp add: pow2_def)

lemma pow2_neg_nat: "pow2 (- int n) = 1 / 2 ^ n"
  by (simp add: pow2_powi power_int_minus inverse_eq_divide)

lemma bexp_bounds:
  assumes "0 < x"
  shows "pow2 (bexp x) \<le> x \<and> x < pow2 (bexp x + 1)"
proof (cases "1 \<le> x")
  case True
  define n where "n = nat \<lfloor>x\<rfloor>"
  have n: "0 < n" "of_nat n \<le> x" "x < of_nat n + 1"
    using True by (simp_all add: n_def) linarith+
  define b where "b = floorlog 2 n"
  from floorlog_bounds [of n 2] n(1)
  have fb: "2 ^ (b - 1) \<le> n" "n < 2 ^ b" by (simp_all add: b_def)
  have bpos: "0 < b" unfolding b_def using n(1) floorlog_eq_zero_iff [of 2 n] by auto
  have e: "bexp x = int (b - 1)"
    using True bpos by (simp add: bexp_def b_def n_def)
  have p1: "(2::rat) ^ (b - 1) \<le> of_nat n"
    using fb(1) by (metis of_nat_le_iff of_nat_numeral of_nat_power)
  have "pow2 (bexp x) = 2 ^ (b - 1)" by (simp only: e pow2_nat)
  with p1 n(2) have lo: "pow2 (bexp x) \<le> x" by linarith
  have "Suc n \<le> 2 ^ b" using fb(2) by simp
  then have "(of_nat (Suc n) :: rat) \<le> 2 ^ b"
    by (metis of_nat_le_iff of_nat_numeral of_nat_power)
  then have p2: "of_nat n + 1 \<le> (2::rat) ^ b" by simp
  have "bexp x + 1 = int b" using e bpos by simp
  then have "pow2 (bexp x + 1) = 2 ^ b" by (simp only: pow2_nat)
  with p2 n(3) have "x < pow2 (bexp x + 1)" by linarith
  with lo show ?thesis by simp
next
  case False
  then have x1: "x < 1" by simp
  define y where "y = 1 / x"
  have y1: "1 < y" using assms x1 by (simp add: y_def)
  define m where "m = nat (\<lceil>y\<rceil> - 1)"
  have "2 \<le> \<lceil>y\<rceil>" using y1 by linarith
  then have m: "0 < m" "of_nat m < y" "y \<le> of_nat m + 1"
    by (simp_all add: m_def) linarith+
  define b where "b = floorlog 2 m"
  from floorlog_bounds [of m 2] m(1)
  have fb: "2 ^ (b - 1) \<le> m" "m < 2 ^ b" by (simp_all add: b_def)
  have bpos: "0 < b" unfolding b_def using m(1) floorlog_eq_zero_iff [of 2 m] by auto
  have e: "bexp x = - int b"
    using False by (simp add: bexp_def b_def m_def y_def)
  have p1: "(2::rat) ^ (b - 1) \<le> of_nat m"
    using fb(1) by (metis of_nat_le_iff of_nat_numeral of_nat_power)
  with m(2) have ylo: "2 ^ (b - 1) < y" by linarith
  have "Suc m \<le> 2 ^ b" using fb(2) by simp
  then have "(of_nat (Suc m) :: rat) \<le> 2 ^ b"
    by (metis of_nat_le_iff of_nat_numeral of_nat_power)
  then have p2: "of_nat m + 1 \<le> (2::rat) ^ b" by simp
  with m(3) have yhi: "y \<le> 2 ^ b" by linarith
  have "pow2 (bexp x) = 1 / 2 ^ b"
    by (simp only: e pow2_neg_nat)
  moreover have "1 / 2 ^ b \<le> x"
    using yhi assms by (simp add: y_def field_simps)
  ultimately have lo: "pow2 (bexp x) \<le> x" by simp
  have "bexp x + 1 = - int (b - 1)" using e bpos by linarith
  then have "pow2 (bexp x + 1) = 1 / 2 ^ (b - 1)"
    by (simp only: pow2_neg_nat)
  moreover have "x < 1 / 2 ^ (b - 1)"
    using ylo assms by (simp add: y_def field_simps)
  ultimately have "x < pow2 (bexp x + 1)" by simp
  with lo show ?thesis by simp
qed

lemma bexp_unique:
  assumes "pow2 e \<le> x" "x < pow2 (e + 1)"
  shows "bexp x = e"
proof -
  have "0 < x" using assms(1) pow2_pos [of e] by linarith
  from bexp_bounds [OF this] have b: "pow2 (bexp x) \<le> x" "x < pow2 (bexp x + 1)" by simp_all
  have "pow2 e < pow2 (bexp x + 1)" using assms(1) b(2) by linarith
  then have "e < bexp x + 1" by (simp add: pow2_less_iff)
  moreover have "pow2 (bexp x) < pow2 (e + 1)" using assms(2) b(1) by linarith
  then have "bexp x < e + 1" by (simp add: pow2_less_iff)
  ultimately show ?thesis by simp
qed

lemma rne_of_int [simp]: "rne (of_int k) = k"
  by (simp add: rne_def)

lemma rne_bounds: "\<lfloor>q\<rfloor> \<le> rne q \<and> rne q \<le> \<lfloor>q\<rfloor> + 1"
  by (simp add: rne_def Let_def)

lemma rne_mono:
  assumes "q \<le> r"
  shows "rne q \<le> rne r"
proof (cases "\<lfloor>q\<rfloor> = \<lfloor>r\<rfloor>")
  case True
  have "q - of_int \<lfloor>r\<rfloor> \<le> r - of_int \<lfloor>r\<rfloor>" using assms by simp
  then show ?thesis
    by (auto simp add: rne_def Let_def True)
next
  case False
  moreover have "\<lfloor>q\<rfloor> \<le> \<lfloor>r\<rfloor>" using assms by (rule floor_mono)
  ultimately have "\<lfloor>q\<rfloor> + 1 \<le> \<lfloor>r\<rfloor>" by simp
  with rne_bounds [of q] rne_bounds [of r] show ?thesis by linarith
qed


lemma rnd32_pos_eq:
  "0 < x \<Longrightarrow> rnd32 x = of_int (rne (x / pow2 (bexp x - 23))) * pow2 (bexp x - 23)"
  by (simp add: rnd32_def Let_def)

lemma pow2_0 [simp]: "pow2 0 = 1"
  by (simp add: pow2_def)

lemma pow2_div: "pow2 a / pow2 b = pow2 (a - b)"
proof -
  have "pow2 a = pow2 (a - b) * pow2 b"
    using pow2_add [of "a - b" b] by simp
  then have "pow2 a / pow2 b = pow2 (a - b) * pow2 b / pow2 b"
    by (simp only:)
  also have "\<dots> = pow2 (a - b)"
    using pow2_pos [of b] by simp
  finally show ?thesis .
qed

text \<open>A number with an integer significand below \<open>2\<^sup>2\<^sup>4\<close> is representable.\<close>

lemma rnd32_repr:
  assumes "0 < m" "m < 2 ^ 24"
  shows "rnd32 (of_int m * pow2 k) = of_int m * pow2 k"
proof -
  define b where "b = bexp (of_int m)"
  have mpos: "(0::rat) < of_int m" using assms(1) by simp
  from bexp_bounds [OF mpos]
  have bb: "pow2 b \<le> of_int m" "of_int m < pow2 (b + 1)" by (simp_all add: b_def)
  have "(of_int m :: rat) < of_int (2 ^ 24)" using assms(2) by (simp only: of_int_less_iff)
  then have "(of_int m :: rat) < pow2 24" by (simp add: pow2_def)
  with bb(1) have "pow2 b < pow2 24" by linarith
  then have b_hi: "b < 24" by (simp only: pow2_less_iff)
  define j where "j = nat (23 - b)"
  have j: "23 - b = int j" using b_hi by (simp add: j_def)
  have xpos: "0 < of_int m * pow2 k" using mpos by simp
  have "pow2 (b + k) \<le> of_int m * pow2 k"
    using bb(1) by (simp add: pow2_add)
  moreover have "of_int m * pow2 k < pow2 (b + k + 1)"
    using bb(2) pow2_add [of "b + 1" k] by (simp add: add.commute add.left_commute)
  ultimately have e: "bexp (of_int m * pow2 k) = b + k" by (rule bexp_unique)
  have "of_int m * pow2 k / pow2 (b + k - 23) = of_int m * (pow2 k / pow2 (b + k - 23))"
    by simp
  also have "pow2 k / pow2 (b + k - 23) = pow2 (23 - b)"
    by (simp add: pow2_div)
  also have "pow2 (23 - b) = of_int (2 ^ j)"
    by (simp only: j pow2_nat) simp
  finally have q: "of_int m * pow2 k / pow2 (b + k - 23) = of_int (m * 2 ^ j)"
    by simp
  have "rnd32 (of_int m * pow2 k) = of_int (m * 2 ^ j) * pow2 (b + k - 23)"
    by (simp only: rnd32_pos_eq [OF xpos] e q rne_of_int)
  also have "\<dots> = of_int m * (pow2 (int j) * pow2 (b + k - 23))"
    by (simp add: pow2_nat)
  also have "pow2 (int j) * pow2 (b + k - 23) = pow2 k"
  proof -
    have "int j + (b + k - 23) = k" using j by linarith
    then show ?thesis by (simp only: pow2_add [symmetric])
  qed
  finally show ?thesis .
qed

lemma rnd32_of_nat:
  assumes "n < 2 ^ 24"
  shows "rnd32 (of_nat n) = of_nat n"
proof (cases "n = 0")
  case True
  then show ?thesis by (simp add: rnd32_def)
next
  case False
  then have "0 < int n" by simp
  moreover have "int n < 2 ^ 24" using assms by (metis of_nat_less_iff of_nat_numeral of_nat_power)
  ultimately have "rnd32 (of_int (int n) * pow2 0) = of_int (int n) * pow2 0"
    by (rule rnd32_repr)
  then show ?thesis by simp
qed

lemma rnd32_half_of_nat:
  assumes "n < 2 ^ 24"
  shows "rnd32 (of_nat n / 2) = of_nat n / 2"
proof (cases "n = 0")
  case True
  then show ?thesis by (simp add: rnd32_def)
next
  case False
  then have "0 < int n" by simp
  moreover have "int n < 2 ^ 24" using assms by (metis of_nat_less_iff of_nat_numeral of_nat_power)
  ultimately have "rnd32 (of_int (int n) * pow2 (- 1)) = of_int (int n) * pow2 (- 1)"
    by (rule rnd32_repr)
  then show ?thesis by (simp add: pow2_def)
qed

lemma rnd32_nonneg:
  assumes "0 \<le> x"
  shows "0 \<le> rnd32 x"
proof (cases "x = 0")
  case True
  then show ?thesis by (simp add: rnd32_def)
next
  case False
  with assms have xpos: "0 < x" by simp
  have "0 \<le> x / pow2 (bexp x - 23)"
    using xpos pow2_pos [of "bexp x - 23"] by (simp add: less_imp_le)
  then have "rne 0 \<le> rne (x / pow2 (bexp x - 23))" by (rule rne_mono)
  then have "0 \<le> rne (x / pow2 (bexp x - 23))" using rne_of_int [of 0] by simp
  then show ?thesis by (simp add: rnd32_pos_eq [OF xpos] zero_le_mult_iff)
qed

lemma rnd32_binade:
  assumes "0 < x"
  shows "pow2 (bexp x) \<le> rnd32 x \<and> rnd32 x \<le> pow2 (bexp x + 1)"
proof -
  define u where "u = bexp x - 23"
  from bexp_bounds [OF assms]
  have bb: "pow2 (bexp x) \<le> x" "x < pow2 (bexp x + 1)" by simp_all
  have r: "rnd32 x = of_int (rne (x / pow2 u)) * pow2 u"
    by (simp only: rnd32_pos_eq [OF assms] u_def)
  have "pow2 (bexp x) / pow2 u = pow2 23"
    by (simp add: pow2_div u_def)
  then have lo: "pow2 (bexp x) / pow2 u = of_int (2 ^ 23)"
    by (simp add: pow2_def)
  have "pow2 (bexp x + 1) / pow2 u = pow2 24"
    by (simp add: pow2_div u_def)
  then have hi: "pow2 (bexp x + 1) / pow2 u = of_int (2 ^ 24)"
    by (simp add: pow2_def)
  have "pow2 (bexp x) / pow2 u \<le> x / pow2 u"
    using bb(1) by (simp add: divide_right_mono)
  then have "rne (of_int (2 ^ 23)) \<le> rne (x / pow2 u)"
    unfolding lo by (rule rne_mono)
  then have "(of_int (2 ^ 23) :: rat) \<le> of_int (rne (x / pow2 u))"
    by (simp only: rne_of_int of_int_le_iff)
  then have "of_int (2 ^ 23) * pow2 u \<le> of_int (rne (x / pow2 u)) * pow2 u"
    by (simp add: mult_right_mono)
  moreover have "of_int (2 ^ 23) * pow2 u = pow2 (bexp x)"
    using lo by (simp add: field_simps)
  ultimately have 1: "pow2 (bexp x) \<le> rnd32 x"
    unfolding r by linarith
  have "x / pow2 u \<le> pow2 (bexp x + 1) / pow2 u"
    using bb(2) by (simp add: divide_right_mono)
  then have "rne (x / pow2 u) \<le> rne (of_int (2 ^ 24))"
    unfolding hi by (rule rne_mono)
  then have "(of_int (rne (x / pow2 u)) :: rat) \<le> of_int (2 ^ 24)"
    by (simp only: rne_of_int of_int_le_iff)
  then have "of_int (rne (x / pow2 u)) * pow2 u \<le> of_int (2 ^ 24) * pow2 u"
    by (simp add: mult_right_mono)
  moreover have "of_int (2 ^ 24) * pow2 u = pow2 (bexp x + 1)"
    using hi by (simp add: field_simps)
  ultimately have 2: "rnd32 x \<le> pow2 (bexp x + 1)"
    unfolding r by linarith
  from 1 2 show ?thesis by simp
qed

text \<open>Rounding is monotone on the non-negative numbers.\<close>

lemma rnd32_mono:
  assumes "0 \<le> x" "x \<le> y"
  shows "rnd32 x \<le> rnd32 y"
proof (cases "x = 0")
  case True
  then show ?thesis using rnd32_nonneg [of y] assms by (simp add: rnd32_def)
next
  case False
  with assms have xpos: "0 < x" and ypos: "0 < y" by simp_all
  from bexp_bounds [OF xpos] have bx: "pow2 (bexp x) \<le> x" "x < pow2 (bexp x + 1)" by simp_all
  from bexp_bounds [OF ypos] have by': "pow2 (bexp y) \<le> y" "y < pow2 (bexp y + 1)" by simp_all
  have "pow2 (bexp x) < pow2 (bexp y + 1)" using bx(1) by'(2) assms(2) by linarith
  then have le: "bexp x \<le> bexp y" by (simp add: pow2_less_iff)
  show ?thesis
  proof (cases "bexp x = bexp y")
    case True
    have "x / pow2 (bexp y - 23) \<le> y / pow2 (bexp y - 23)"
      using assms(2) by (simp add: divide_right_mono)
    then have "rne (x / pow2 (bexp y - 23)) \<le> rne (y / pow2 (bexp y - 23))"
      by (rule rne_mono)
    then have "(of_int (rne (x / pow2 (bexp y - 23))) :: rat) * pow2 (bexp y - 23)
        \<le> of_int (rne (y / pow2 (bexp y - 23))) * pow2 (bexp y - 23)"
      by (simp add: mult_right_mono)
    then show ?thesis
      by (simp only: rnd32_pos_eq [OF xpos] rnd32_pos_eq [OF ypos] True)
  next
    case False
    with le have "bexp x + 1 \<le> bexp y" by simp
    then have "pow2 (bexp x + 1) \<le> pow2 (bexp y)" by (simp only: pow2_le_iff)
    with rnd32_binade [OF xpos] rnd32_binade [OF ypos] show ?thesis by linarith
  qed
qed

subsection \<open>Structure of the five-level control loop\<close>

lemma rnd32_0 [simp]: "rnd32 0 = 0"
  by (simp add: rnd32_def)

lemma rnd32_1 [simp]: "rnd32 1 = 1"
  by code_simp

lemma FAN_SPEEDS_eq: "FAN_SPEEDS = [0, 1 / 4, 1 / 2, 3 / 4, 1]"
  by code_simp

lemma readSpeedLevel_range: "0 \<le> readSpeedLevel p \<and> readSpeedLevel p \<le> 4"
  by (simp add: readSpeedLevel_def)

lemma readThermadorSpeed_range: "0 \<le> readThermadorSpeed p \<and> readThermadorSpeed p \<le> 3"
  by (simp add: readThermadorSpeed_def Let_def)

lemma FAN_SPEEDS_at_Some:
  "0 \<le> L \<Longrightarrow> L \<le> 4 \<Longrightarrow> FAN_SPEEDS_at L = Some (FAN_SPEEDS ! nat L)"
  by (simp add: FAN_SPEEDS_at_def FAN_SPEEDS_def)

lemma FAN_SPEEDS_at_None:
  "L < 0 \<or> 4 < L \<Longrightarrow> FAN_SPEEDS_at L = None"
  by (auto simp add: FAN_SPEEDS_at_def FAN_SPEEDS_def)

lemma setFanSpeed_fields [simp]:
  "speedLevel (setFanSpeed v s) = speedLevel s"
  "lastChange (setFanSpeed v s) = lastChange s"
  "tachCount (setFanSpeed v s) = tachCount s"
  "rpm (setFanSpeed v s) = rpm s"
  "manualMode (setFanSpeed v s) = manualMode s"
  "lastUpdate (setFanSpeed v s) = lastUpdate s"
  "lastStatus (setFanSpeed v s) = lastStatus s"
  "lastRPMTime (setFanSpeed v s) = lastRPMTime s"
  "lastCount (setFanSpeed v s) = lastCount s"
  "LED (setFanSpeed v s) = LED s"
  by (simp_all add: setFanSpeed_def Let_def)

lemma OCR1A_setFanSpeed: "OCR1A (setFanSpeed v s) = OCR1A (setFanSpeed v startup)"
  by (simp add: setFanSpeed_def Let_def)

lemma currentSpeed_setFanSpeed:
  "currentSpeed (setFanSpeed v s) = constrain v (rnd32 0) (rnd32 1)"
  by (simp add: setFanSpeed_def Let_def)

lemma updateRPM_fields [simp]:
  "speedLevel (updateRPM t t' s) = speedLevel s"
  "lastChange (updateRPM t t' s) = lastChange s"
  "tachCount (updateRPM t t' s) = tachCount s"
  "manualMode (updateRPM t t' s) = manualMode s"
  "lastUpdate (updateRPM t t' s) = lastUpdate s"
  "lastStatus (updateRPM t t' s) = lastStatus s"
  "OCR1A (updateRPM t t' s) = OCR1A s"
  "currentSpeed (updateRPM t t' s) = currentSpeed s"
  "LED (updateRPM t t' s) = LED s"
  by (simp_all add: updateRPM_def Let_def)

lemma updateLED_fields [simp]:
  "speedLevel (updateLED t s) = speedLevel s"
  "lastChange (updateLED t s) = lastChange s"
  "tachCount (updateLED t s) = tachCount s"
  "rpm (updateLED t s) = rpm s"
  "manualMode (updateLED t s) = manualMode s"
  "lastUpdate (updateLED t s) = lastUpdate s"
  "lastStatus (updateLED t s) = lastStatus s"
  "lastRPMTime (updateLED t s) = lastRPMTime s"
  "lastCount (updateLED t s) = lastCount s"
  "OCR1A (updateLED t s) = OCR1A s"
  "currentSpeed (updateLED t s) = currentSpeed s"
  by (simp_all add: updateLED_def Let_def)

lemma statusTick_fields [simp]:
  "speedLevel (statusTick i s) = speedLevel s"
  "lastChange (statusTick i s) = lastChange s"
  "tachCount (statusTick i s) = tachCount s"
  "rpm (statusTick i s) = rpm s"
  "manualMode (statusTick i s) = manualMode s"
  "lastUpdate (statusTick i s) = lastUpdate s"
  "lastRPMTime (statusTick i s) = lastRPMTime s"
  "lastCount (statusTick i s) = lastCount s"
  "OCR1A (statusTick i s) = OCR1A s"
  "currentSpeed (statusTick i s) = currentSpeed s"
  "LED (statusTick i s) = LED s"
  by (simp_all add: statusTick_def)

text \<open>The sampling block, with the table read resolved.\<close>

lemma checkInputs_eq:
  "checkInputs i s =
     Some (if 50 < millis_gate i - lastUpdate s \<and> \<not> manualMode s then
        updateRPM (millis_rpm i) (millis_rpm_mark i)
          (if readSpeedLevel (pins_in i) \<noteq> speedLevel s \<and>
              100 < millis_debounce i - lastChange s
           then (setFanSpeed (FAN_SPEEDS ! nat (readSpeedLevel (pins_in i)))
                   (s\<lparr>lastUpdate := millis_update i, speedLevel := readSpeedLevel (pins_in i)\<rparr>))
                  \<lparr>lastChange := millis_change i\<rparr>
           else s\<lparr>lastUpdate := millis_update i\<rparr>)
      else s)"
  using readSpeedLevel_range [of "pins_in i"]
  by (simp add: checkInputs_def Let_def FAN_SPEEDS_at_Some)

lemma runTest_for_eq:
  "runTest_for 0 s =
     Some (setFanSpeed (FAN_SPEEDS ! 4) (setFanSpeed (FAN_SPEEDS ! 3) (setFanSpeed (FAN_SPEEDS ! 2)
       (setFanSpeed (FAN_SPEEDS ! 1) (setFanSpeed (FAN_SPEEDS ! 0) s)))))"
proof -
  have 5: "runTest_for 5 t = Some t" for t
    by (subst runTest_for.simps) simp
  have 4: "runTest_for 4 t = Some (setFanSpeed (FAN_SPEEDS ! 4) t)" for t
    by (subst runTest_for.simps) (simp add: FAN_SPEEDS_at_Some 5)
  have 3: "runTest_for 3 t = Some (setFanSpeed (FAN_SPEEDS ! 4) (setFanSpeed (FAN_SPEEDS ! 3) t))" for t
    by (subst runTest_for.simps) (simp add: FAN_SPEEDS_at_Some 4)
  have 2: "runTest_for 2 t = Some (setFanSpeed (FAN_SPEEDS ! 4) (setFanSpeed (FAN_SPEEDS ! 3)
      (setFanSpeed (FAN_SPEEDS ! 2) t)))" for t
    by (subst runTest_for.simps) (simp add: FAN_SPEEDS_at_Some 3)
  have 1: "runTest_for 1 t = Some (setFanSpeed (FAN_SPEEDS ! 4) (setFanSpeed (FAN_SPEEDS ! 3)
      (setFanSpeed (FAN_SPEEDS ! 2) (setFanSpeed (FAN_SPEEDS ! 1) t))))" for t
    by (subst runTest_for.simps) (simp add: FAN_SPEEDS_at_Some 2)
  show ?thesis
    by (subst runTest_for.simps) (simp add: FAN_SPEEDS_at_Some 1)
qed

lemma setFanSpeed_0: "setFanSpeed 0 s = s\<lparr>currentSpeed := 0, OCR1A := 0\<rparr>"
  by (simp add: setFanSpeed_def Let_def constrain_def)

lemma setFanSpeed_twice: "setFanSpeed v (setFanSpeed w s) = setFanSpeed v s"
  by (simp add: setFanSpeed_def Let_def)

lemma runTest_eq:
  "runTest s = Some (s\<lparr>currentSpeed := 0, OCR1A := 0, speedLevel := 0\<rparr>)"
  by (simp add: runTest_def runTest_for_eq setFanSpeed_twice setFanSpeed_0)

subsection \<open>Input sampling\<close>

lemma readSpeedLevel_Max:
  "readSpeedLevel p = (if asserted p = {} then 0 else Max (asserted p))"
  by (cases "SPEED1_PIN p"; cases "SPEED2_PIN p"; cases "SPEED3_PIN p"; cases "SPEED4_PIN p")
     (simp_all add: readSpeedLevel_def asserted_def)

lemma readThermadorSpeed_Max:
  "readThermadorSpeed p = (if asserted3 p = {} then 0 else Max (asserted3 p))"
  by (cases "THERMADOR_SPEED1_PIN p"; cases "THERMADOR_SPEED2_PIN p";
      cases "THERMADOR_SPEED3_PIN p")
     (simp_all add: readThermadorSpeed_def asserted3_def)

text \<open>
  Claim C8. In discrete-wire mode, for every combination of the active-low speed lines,
  the sampled level is the highest asserted tier, and it is 0 (off) when no line is
  asserted. This holds for the four-wire sampler of the five-level sketch and for the
  three-wire sampler alike.
\<close>

theorem C8_highest_asserted_tier:
  "readSpeedLevel p = (if asserted p = {} then 0 else Max (asserted p)) \<and>
   readThermadorSpeed q = (if asserted3 q = {} then 0 else Max (asserted3 q))"
  using readSpeedLevel_Max [of p] readThermadorSpeed_Max [of q] by simp

subsection \<open>Speed mapping\<close>

lemma toDuty_0: "toDuty 0 = Some 0" by code_simp
lemma toDuty_1: "toDuty 1 = Some 128" by code_simp
lemma toDuty_2: "toDuty 2 = Some 192" by code_simp
lemma toDuty_3: "toDuty 3 = Some 256" by code_simp
lemma toDuty_4: "toDuty 4 = Some 320" by code_simp

lemma toDuty3_0: "toDuty3 0 = 0" by code_simp
lemma toDuty3_1: "toDuty3 1 = 140" by code_simp
lemma toDuty3_2: "toDuty3 2 = 217" by code_simp
lemma toDuty3_3: "toDuty3 3 = 320" by code_simp

lemmas toDuty_values =
  toDuty_0 toDuty_1 toDuty_2 toDuty_3 toDuty_4 toDuty3_0 toDuty3_1 toDuty3_2 toDuty3_3

lemma level_cases:
  "0 \<le> L \<Longrightarrow> L \<le> 4 \<Longrightarrow> L = 0 \<or> L = 1 \<or> L = 2 \<or> L = 3 \<or> L = (4::int)"
  by arith

text \<open>
  Claim C1. With TOP = 320 and a minimum duty fraction of 0.20, level 0 (normalized
  speed 0.0) yields the compare value 0, and every valid level above 0 yields a compare
  value of at least 64: levels 1 to 4 of the five-level sketch, levels 1 to 3 of the
  three-wire sketch. Hence no level yields a value strictly between 0 and 64.
\<close>

theorem C1_duty_floor:
  "toDuty 0 = Some 0 \<and> toDuty3 0 = 0 \<and>
   (0 < L \<and> L \<le> 4 \<longrightarrow> (\<exists>d. toDuty L = Some d \<and> 64 \<le> d)) \<and>
   (0 < L \<and> L \<le> 3 \<longrightarrow> 64 \<le> toDuty3 L)"
proof -
  have five: "\<exists>d. toDuty L = Some d \<and> 64 \<le> d" if "0 < L" "L \<le> 4"
  proof -
    from that have "L = 1 \<or> L = 2 \<or> L = 3 \<or> L = 4" by arith
    then show ?thesis by (elim disjE) (simp_all add: toDuty_values)
  qed
  have three: "64 \<le> toDuty3 L" if "0 < L" "L \<le> 3"
  proof -
    from that have "L = 1 \<or> L = 2 \<or> L = 3" by arith
    then show ?thesis by (elim disjE) (simp_all add: toDuty_values)
  qed
  from five three show ?thesis by (simp add: toDuty_values)
qed

theorem C1_duty_floor_witness:
  "(0::int) < 2 \<and> (2::int) \<le> 3 \<and> toDuty 2 = Some 192 \<and> (64::16 word) \<le> 192 \<and>
   64 \<le> toDuty3 2"
  using C1_duty_floor [of 2] by (simp add: toDuty_2)

text \<open>
  Claim C2. For valid levels \<open>L1 < L2\<close> the composed mapping from the level through
  the speed table to the compare value is non-decreasing, and strictly increasing when
  \<open>L1 > 0\<close>; in both sketches.
\<close>

theorem C2_duty_monotone:
  "0 \<le> L1 \<Longrightarrow> L1 < L2 \<Longrightarrow>
   (L2 \<le> 4 \<longrightarrow>
      (\<exists>d1 d2. toDuty L1 = Some d1 \<and> toDuty L2 = Some d2 \<and> d1 \<le> d2 \<and>
         (0 < L1 \<longrightarrow> d1 < d2))) \<and>
   (L2 \<le> 3 \<longrightarrow> toDuty3 L1 \<le> toDuty3 L2 \<and> (0 < L1 \<longrightarrow> toDuty3 L1 < toDuty3 L2))"
proof (intro conjI impI)
  assume a: "0 \<le> L1" "L1 < L2" "L2 \<le> 4"
  then have "L1 = 0 \<or> L1 = 1 \<or> L1 = 2 \<or> L1 = 3" by arith
  moreover from a have "L2 = 1 \<or> L2 = 2 \<or> L2 = 3 \<or> L2 = 4" by arith
  ultimately show "\<exists>d1 d2. toDuty L1 = Some d1 \<and> toDuty L2 = Some d2 \<and> d1 \<le> d2 \<and>
      (0 < L1 \<longrightarrow> d1 < d2)"
    using a(2) by (elim disjE) (simp_all add: toDuty_values)
next
  assume a: "0 \<le> L1" "L1 < L2" "L2 \<le> 3"
  then have "L1 = 0 \<or> L1 = 1 \<or> L1 = 2" by arith
  moreover from a have "L2 = 1 \<or> L2 = 2 \<or> L2 = 3" by arith
  ultimately show "toDuty3 L1 \<le> toDuty3 L2"
    using a(2) by (elim disjE) (simp_all add: toDuty_values)
next
  assume a: "0 \<le> L1" "L1 < L2" "L2 \<le> 3" "0 < L1"
  then have "L1 = 1 \<or> L1 = 2" by arith
  moreover from a have "L2 = 2 \<or> L2 = 3" by arith
  ultimately show "toDuty3 L1 < toDuty3 L2"
    using a(2) by (elim disjE) (simp_all add: toDuty_values)
qed

theorem C2_duty_monotone_witness:
  "(0::int) \<le> 1 \<and> (1::int) < 3 \<and> (3::int) \<le> 3 \<and>
   toDuty 1 = Some 128 \<and> toDuty 3 = Some 256 \<and> (128::16 word) < 256 \<and>
   toDuty3 1 < toDuty3 3"
  using C2_duty_monotone [of 1 3] by (simp add: toDuty_1 toDuty_3)

subsection \<open>Commands and the level invariant\<close>

lemma handleCommands_None [simp]: "handleCommands None s = Some s"
  by (simp add: handleCommands_def)

lemma handleCommands_speed:
  assumes "commandLevel (toLowerCase (trim str)) = Some L"
  shows "handleCommands (Some str) s =
     Some ((setFanSpeed (FAN_SPEEDS ! nat L) (s\<lparr>speedLevel := L\<rparr>))\<lparr>manualMode := True\<rparr>)"
  using assms
  by (simp add: commandLevel_def handleCommands_def Let_def FAN_SPEEDS_at_Some
      split: if_splits)

lemma handleCommands_auto:
  "toLowerCase (trim str) = ''auto'' \<Longrightarrow>
   handleCommands (Some str) s = Some (s\<lparr>manualMode := False\<rparr>)"
  by (simp add: handleCommands_def)

lemma handleCommands_test:
  "toLowerCase (trim str) = ''test'' \<Longrightarrow>
   handleCommands (Some str) s = Some (s\<lparr>currentSpeed := 0, OCR1A := 0, speedLevel := 0\<rparr>)"
  by (simp add: handleCommands_def runTest_eq)

lemma handleCommands_quiet: "quiet line \<Longrightarrow> handleCommands line s = Some s"
  by (cases line)
     (auto simp add: quiet_def handleCommands_def commandLevel_def Let_def split: if_splits)

lemma commandLevel_range: "commandLevel cmd = Some L \<Longrightarrow> 0 \<le> L \<and> L \<le> 4"
  by (auto simp add: commandLevel_def split: if_splits)

lemma handleCommands_total: "\<exists>s'. handleCommands line s = Some s'"
  by (cases line)
     (simp_all add: handleCommands_def Let_def FAN_SPEEDS_at_Some runTest_eq)

lemma handleCommands_level_range:
  assumes "handleCommands line s = Some s'" "0 \<le> speedLevel s" "speedLevel s \<le> 4"
  shows "0 \<le> speedLevel s' \<and> speedLevel s' \<le> 4"
  using assms
  by (cases line)
     (auto simp add: handleCommands_def Let_def FAN_SPEEDS_at_Some runTest_eq split: if_splits)

lemma checkInputs_level_range:
  assumes "checkInputs i s = Some s'" "0 \<le> speedLevel s" "speedLevel s \<le> 4"
  shows "0 \<le> speedLevel s' \<and> speedLevel s' \<le> 4"
  using assms readSpeedLevel_range [of "pins_in i"]
  by (auto simp add: checkInputs_eq split: if_splits)

lemma loop_total: "\<exists>s'. loop i s = Some s'"
proof -
  obtain s1 where 1: "checkInputs i s = Some s1" by (simp add: checkInputs_eq)
  obtain s2 where 2: "handleCommands (serial_in i) (statusTick i s1) = Some s2"
    using handleCommands_total by blast
  show ?thesis by (simp add: loop_def 1 2)
qed

lemma loop_level_range:
  assumes "loop i s = Some s'" "0 \<le> speedLevel s" "speedLevel s \<le> 4"
  shows "0 \<le> speedLevel s' \<and> speedLevel s' \<le> 4"
proof -
  obtain s1 where 1: "checkInputs i s = Some s1" by (simp add: checkInputs_eq)
  obtain s2 where 2: "handleCommands (serial_in i) (statusTick i s1) = Some s2"
    using handleCommands_total by blast
  from assms(1) have s': "s' = updateLED (millis_led i) s2" by (simp add: loop_def 1 2)
  from checkInputs_level_range [OF 1 assms(2,3)]
  have "0 \<le> speedLevel (statusTick i s1) \<and> speedLevel (statusTick i s1) \<le> 4" by simp
  with handleCommands_level_range [OF 2] show ?thesis by (simp add: s')
qed

lemma reachable_level_range: "reachable s \<Longrightarrow> 0 \<le> speedLevel s \<and> speedLevel s \<le> 4"
proof (induction rule: reachable.induct)
  case start
  show ?case by (simp add: startup_def)
next
  case (edge s)
  then show ?case by (simp add: tachISR_def)
next
  case (pass s i s')
  from loop_level_range [OF pass(2)] pass(3) show ?case by simp
qed


subsection \<open>Structure of the three-wire control loop\<close>

lemma setCloudlineSpeed_fields [simp]:
  "currentSpeedLevel (setCloudlineSpeed v s) = currentSpeedLevel s"
  "lastSpeedChange (setCloudlineSpeed v s) = lastSpeedChange s"
  "tachPulseCount (setCloudlineSpeed v s) = tachPulseCount s"
  "currentRPM (setCloudlineSpeed v s) = currentRPM s"
  "debounceDelay (setCloudlineSpeed v s) = debounceDelay s"
  "lastUpdate3 (setCloudlineSpeed v s) = lastUpdate3 s"
  "lastStatusPrint (setCloudlineSpeed v s) = lastStatusPrint s"
  "lastRPMUpdate (setCloudlineSpeed v s) = lastRPMUpdate s"
  "lastPulseCount (setCloudlineSpeed v s) = lastPulseCount s"
  "STATUS_LED (setCloudlineSpeed v s) = STATUS_LED s"
  by (simp_all add: setCloudlineSpeed_def Let_def)

lemma updateCloudlineSpeed_fields [simp]:
  "currentSpeedLevel (updateCloudlineSpeed s) = currentSpeedLevel s"
  "lastSpeedChange (updateCloudlineSpeed s) = lastSpeedChange s"
  "tachPulseCount (updateCloudlineSpeed s) = tachPulseCount s"
  "currentRPM (updateCloudlineSpeed s) = currentRPM s"
  "debounceDelay (updateCloudlineSpeed s) = debounceDelay s"
  "lastUpdate3 (updateCloudlineSpeed s) = lastUpdate3 s"
  "lastStatusPrint (updateCloudlineSpeed s) = lastStatusPrint s"
  "lastRPMUpdate (updateCloudlineSpeed s) = lastRPMUpdate s"
  "lastPulseCount (updateCloudlineSpeed s) = lastPulseCount s"
  "STATUS_LED (updateCloudlineSpeed s) = STATUS_LED s"
  by (simp_all add: updateCloudlineSpeed_def Let_def)

lemma OCR1A3_updateCloudlineSpeed:
  "OCR1A3 (updateCloudlineSpeed s) = toDuty3 (currentSpeedLevel s)"
  by (simp add: toDuty3_def updateCloudlineSpeed_def setCloudlineSpeed_def Let_def)

lemma updateRPM3_fields [simp]:
  "currentSpeedLevel (updateRPM3 t t' s) = currentSpeedLevel s"
  "lastSpeedChange (updateRPM3 t t' s) = lastSpeedChange s"
  "tachPulseCount (updateRPM3 t t' s) = tachPulseCount s"
  "debounceDelay (updateRPM3 t t' s) = debounceDelay s"
  "lastUpdate3 (updateRPM3 t t' s) = lastUpdate3 s"
  "lastStatusPrint (updateRPM3 t t' s) = lastStatusPrint s"
  "OCR1A3 (updateRPM3 t t' s) = OCR1A3 s"
  "currentFanSpeed (updateRPM3 t t' s) = currentFanSpeed s"
  "STATUS_LED (updateRPM3 t t' s) = STATUS_LED s"
  by (simp_all add: updateRPM3_def Let_def)

lemma updateStatusLED_fields [simp]:
  "currentSpeedLevel (updateStatusLED t s) = currentSpeedLevel s"
  "lastSpeedChange (updateStatusLED t s) = lastSpeedChange s"
  "tachPulseCount (updateStatusLED t s) = tachPulseCount s"
  "currentRPM (updateStatusLED t s) = currentRPM s"
  "debounceDelay (updateStatusLED t s) = debounceDelay s"
  "lastUpdate3 (updateStatusLED t s) = lastUpdate3 s"
  "lastStatusPrint (updateStatusLED t s) = lastStatusPrint s"
  "lastRPMUpdate (updateStatusLED t s) = lastRPMUpdate s"
  "lastPulseCount (updateStatusLED t s) = lastPulseCount s"
  "OCR1A3 (updateStatusLED t s) = OCR1A3 s"
  "currentFanSpeed (updateStatusLED t s) = currentFanSpeed s"
  by (simp_all add: updateStatusLED_def Let_def)

lemma statusTick3_fields [simp]:
  "currentSpeedLevel (statusTick3 i s) = currentSpeedLevel s"
  "lastSpeedChange (statusTick3 i s) = lastSpeedChange s"
  "tachPulseCount (statusTick3 i s) = tachPulseCount s"
  "currentRPM (statusTick3 i s) = currentRPM s"
  "debounceDelay (statusTick3 i s) = debounceDelay s"
  "lastUpdate3 (statusTick3 i s) = lastUpdate3 s"
  "lastRPMUpdate (statusTick3 i s) = lastRPMUpdate s"
  "lastPulseCount (statusTick3 i s) = lastPulseCount s"
  "OCR1A3 (statusTick3 i s) = OCR1A3 s"
  "currentFanSpeed (statusTick3 i s) = currentFanSpeed s"
  "STATUS_LED (statusTick3 i s) = STATUS_LED s"
  by (simp_all add: statusTick3_def)

lemma runSpeedTest_level [simp]: "currentSpeedLevel (runSpeedTest s) = 0"
  by (simp add: runSpeedTest_def Let_def)

lemma handleSerialCommands_speed:
  assumes "commandLevel (toLowerCase (trim str)) = Some L" "L \<le> 3"
  shows "handleSerialCommands (Some str) s = updateCloudlineSpeed (s\<lparr>currentSpeedLevel := L\<rparr>)"
  using assms
  by (simp add: commandLevel_def handleSerialCommands_def Let_def split: if_splits)

lemma handleSerialCommands_level_range:
  assumes "0 \<le> currentSpeedLevel s" "currentSpeedLevel s \<le> 3"
  shows "0 \<le> currentSpeedLevel (handleSerialCommands line s) \<and>
         currentSpeedLevel (handleSerialCommands line s) \<le> 3"
  using assms by (cases line) (simp_all add: handleSerialCommands_def Let_def)

lemma checkInputs3_level_range:
  assumes "0 \<le> currentSpeedLevel s" "currentSpeedLevel s \<le> 3"
  shows "0 \<le> currentSpeedLevel (checkInputs3 i s) \<and> currentSpeedLevel (checkInputs3 i s) \<le> 3"
  using assms readThermadorSpeed_range [of "pins_in i"]
  by (simp add: checkInputs3_def Let_def)

lemma loop3_level_range:
  assumes "0 \<le> currentSpeedLevel s" "currentSpeedLevel s \<le> 3"
  shows "0 \<le> currentSpeedLevel (loop3 i s) \<and> currentSpeedLevel (loop3 i s) \<le> 3"
proof -
  from checkInputs3_level_range [OF assms, of i]
  have "0 \<le> currentSpeedLevel (statusTick3 i (checkInputs3 i s)) \<and>
        currentSpeedLevel (statusTick3 i (checkInputs3 i s)) \<le> 3" by simp
  then show ?thesis
    using handleSerialCommands_level_range by (simp add: loop3_def)
qed

lemma reachable3_level_range:
  "reachable3 s \<Longrightarrow> 0 \<le> currentSpeedLevel s \<and> currentSpeedLevel s \<le> 3"
proof (induction rule: reachable3.induct)
  case start3
  show ?case by (simp add: startup3_def)
next
  case (edge3 s)
  then show ?case by (simp add: tachISR3_def)
next
  case (pass3 s i)
  then show ?case using loop3_level_range by simp
qed

text \<open>
  Claim C10. The speed level is 0 at startup and lies in the index range of the speed
  table in every reachable state: between 0 and 4 in the five-level sketch, between 0 and
  3 in the three-wire sketch. Hence the table read at the current level is in bounds, and
  no pass of the control loop reads the table out of bounds.
\<close>

theorem C10_level_in_range:
  "speedLevel startup = 0 \<and> currentSpeedLevel startup3 = 0 \<and>
   (reachable s \<longrightarrow>
      0 \<le> speedLevel s \<and> speedLevel s \<le> 4 \<and>
      (\<exists>v. FAN_SPEEDS_at (speedLevel s) = Some v) \<and> (\<exists>s'. loop i s = Some s')) \<and>
   (reachable3 t \<longrightarrow> 0 \<le> currentSpeedLevel t \<and> currentSpeedLevel t \<le> 3)"
  using reachable_level_range [of s] reachable3_level_range [of t] loop_total [of i s]
  by (simp add: startup_def startup3_def FAN_SPEEDS_at_Some)

theorem C10_level_in_range_witness:
  "reachable startup \<and> reachable3 startup3 \<and> speedLevel startup \<le> 4 \<and>
   (\<exists>v. FAN_SPEEDS_at (speedLevel startup) = Some v) \<and>
   (\<exists>s'. loop (input_at 0 (wires False False False False) None) startup = Some s') \<and>
   currentSpeedLevel startup3 \<le> 3"
  using C10_level_in_range [of startup "input_at 0 (wires False False False False) None" startup3]
    reachable.start reachable3.start3
  by blast

subsection \<open>The RPM estimate\<close>

lemma rpm_exact:
  assumes "n * 60 < 2 ^ 24"
  shows "fdiv (fmul (rnd32 (of_nat n)) 60) 2 = of_nat n * 60 / 2"
proof -
  from assms have n: "n < 2 ^ 24" by simp
  have "fmul (rnd32 (of_nat n)) 60 = rnd32 (of_nat (n * 60))"
    by (simp add: fmul_def rnd32_of_nat [OF n])
  also have "\<dots> = of_nat (n * 60)" by (rule rnd32_of_nat [OF assms])
  finally have "fdiv (fmul (rnd32 (of_nat n)) 60) 2 = rnd32 (of_nat (n * 60) / 2)"
    by (simp only: fdiv_def)
  also have "\<dots> = of_nat (n * 60) / 2" by (rule rnd32_half_of_nat [OF assms])
  finally show ?thesis by simp
qed

lemma rpm_exact_ulong:
  "unat w * 60 < 2 ^ 24 \<Longrightarrow>
   fdiv (fmul (float_of_ulong w) 60) 2 = of_nat (unat w) * 60 / 2"
  by (simp only: float_of_ulong_def rpm_exact)

lemma reachable_edges: "reachable s \<Longrightarrow> reachable (s\<lparr>tachCount := tachCount s + of_nat n\<rparr>)"
proof (induction n)
  case 0
  then show ?case by simp
next
  case (Suc n)
  from reachable.edge [OF Suc.IH [OF Suc.prems]] show ?case
    by (simp add: tachISR_def ac_simps)
qed

lemma reachable3_edges:
  "reachable3 s \<Longrightarrow> reachable3 (s\<lparr>tachPulseCount := tachPulseCount s + of_nat n\<rparr>)"
proof (induction n)
  case 0
  then show ?case by simp
next
  case (Suc n)
  from reachable3.edge3 [OF Suc.IH [OF Suc.prems]] show ?case
    by (simp add: tachISR3_def ac_simps)
qed

text \<open>
  Claim C6, as amended. When at least 1000 ms have elapsed since the stored window start
  (in 32-bit wrap-around arithmetic), the estimator stores the current pulse count and the
  current clock reading as the new window markers, and the new estimate is the
  single-precision value of \<^verbatim>\<open>(delta * 60.0) / 2.0\<close>, where \<open>delta\<close> is the 32-bit
  difference of the pulse counts: it equals \<open>delta * 60 / 2\<close> exactly whenever
  \<open>delta * 60 < 2\<^sup>2\<^sup>4\<close>. Otherwise the state, and so the estimate and the markers, is
  unchanged. Both sketches.
\<close>

theorem C6_rpm_window:
  "(1000 \<le> t - lastRPMTime s \<longrightarrow>
      (unat (tachCount s - lastCount s) * 60 < 2 ^ 24 \<longrightarrow>
         rpm (updateRPM t t' s) = of_nat (unat (tachCount s - lastCount s)) * 60 / 2) \<and>
      lastCount (updateRPM t t' s) = tachCount s \<and> lastRPMTime (updateRPM t t' s) = t') \<and>
   (\<not> 1000 \<le> t - lastRPMTime s \<longrightarrow> updateRPM t t' s = s) \<and>
   (1000 \<le> t - lastRPMUpdate s3 \<longrightarrow>
      (unat (tachPulseCount s3 - lastPulseCount s3) * 60 < 2 ^ 24 \<longrightarrow>
         currentRPM (updateRPM3 t t' s3) =
           of_nat (unat (tachPulseCount s3 - lastPulseCount s3)) * 60 / 2) \<and>
      lastPulseCount (updateRPM3 t t' s3) = tachPulseCount s3 \<and>
      lastRPMUpdate (updateRPM3 t t' s3) = t') \<and>
   (\<not> 1000 \<le> t - lastRPMUpdate s3 \<longrightarrow> updateRPM3 t t' s3 = s3)"
proof -
  have 1: "rpm (updateRPM t t' s) = of_nat (unat (tachCount s - lastCount s)) * 60 / 2"
    if "1000 \<le> t - lastRPMTime s" "unat (tachCount s - lastCount s) * 60 < 2 ^ 24"
  proof -
    have "rpm (updateRPM t t' s) = fdiv (fmul (float_of_ulong (tachCount s - lastCount s)) 60) 2"
      using that(1) by (simp add: updateRPM_def Let_def)
    with rpm_exact_ulong [OF that(2)] show ?thesis by (simp only:)
  qed
  have 2: "currentRPM (updateRPM3 t t' s3) =
      of_nat (unat (tachPulseCount s3 - lastPulseCount s3)) * 60 / 2"
    if "1000 \<le> t - lastRPMUpdate s3" "unat (tachPulseCount s3 - lastPulseCount s3) * 60 < 2 ^ 24"
  proof -
    have "currentRPM (updateRPM3 t t' s3) =
        fdiv (fmul (float_of_ulong (tachPulseCount s3 - lastPulseCount s3)) 60) 2"
      using that(1) by (simp add: updateRPM3_def Let_def)
    with rpm_exact_ulong [OF that(2)] show ?thesis by (simp only:)
  qed
  have 3: "lastCount (updateRPM t t' s) = tachCount s \<and> lastRPMTime (updateRPM t t' s) = t'"
    if "1000 \<le> t - lastRPMTime s"
    using that by (simp add: updateRPM_def Let_def)
  have 4: "lastPulseCount (updateRPM3 t t' s3) = tachPulseCount s3 \<and>
      lastRPMUpdate (updateRPM3 t t' s3) = t'"
    if "1000 \<le> t - lastRPMUpdate s3"
    using that by (simp add: updateRPM3_def Let_def)
  have 5: "updateRPM t t' s = s" if "\<not> 1000 \<le> t - lastRPMTime s"
    using that by (simp add: updateRPM_def)
  have 6: "updateRPM3 t t' s3 = s3" if "\<not> 1000 \<le> t - lastRPMUpdate s3"
    using that by (simp add: updateRPM3_def)
  from 1 2 3 4 5 6 show ?thesis by blast
qed

theorem C6_rpm_window_witness:
  "(1000::ulong) \<le> 3000 - lastRPMTime (startup\<lparr>tachCount := 100, lastCount := 40, lastRPMTime := 2000\<rparr>) \<and>
   rpm (updateRPM 3000 3001 (startup\<lparr>tachCount := 100, lastCount := 40, lastRPMTime := 2000\<rparr>)) = 1800 \<and>
   lastCount (updateRPM 3000 3001 (startup\<lparr>tachCount := 100, lastCount := 40, lastRPMTime := 2000\<rparr>)) = 100 \<and>
   lastRPMTime (updateRPM 3000 3001 (startup\<lparr>tachCount := 100, lastCount := 40, lastRPMTime := 2000\<rparr>)) = 3001 \<and>
   \<not> (1000::ulong) \<le> 2500 - lastRPMTime (startup\<lparr>tachCount := 100, lastCount := 40, lastRPMTime := 2000\<rparr>) \<and>
   updateRPM 2500 2501 (startup\<lparr>tachCount := 100, lastCount := 40, lastRPMTime := 2000\<rparr>) =
     startup\<lparr>tachCount := 100, lastCount := 40, lastRPMTime := 2000\<rparr> \<and>
   currentRPM (updateRPM3 3000 3001 (startup3\<lparr>tachPulseCount := 100, lastPulseCount := 40, lastRPMUpdate := 2000\<rparr>)) = 1800 \<and>
   updateRPM3 2500 2501 (startup3\<lparr>tachPulseCount := 100, lastPulseCount := 40, lastRPMUpdate := 2000\<rparr>) =
     startup3\<lparr>tachPulseCount := 100, lastPulseCount := 40, lastRPMUpdate := 2000\<rparr>"
proof -
  have a: "(1000::ulong) \<le> 3000 - 2000" "\<not> (1000::ulong) \<le> 2500 - 2000"
    "unat ((100::ulong) - 40) * 60 < 2 ^ 24" "rat_of_nat (unat ((100::ulong) - 40)) * 60 / 2 = 1800"
    by simp_all
  from C6_rpm_window [of 3000 "startup\<lparr>tachCount := 100, lastCount := 40, lastRPMTime := 2000\<rparr>" 3001
      "startup3\<lparr>tachPulseCount := 100, lastPulseCount := 40, lastRPMUpdate := 2000\<rparr>"]
    C6_rpm_window [of 2500 "startup\<lparr>tachCount := 100, lastCount := 40, lastRPMTime := 2000\<rparr>" 2501
      "startup3\<lparr>tachPulseCount := 100, lastPulseCount := 40, lastRPMUpdate := 2000\<rparr>"] a
  show ?thesis by simp
qed

lemma rnd32_16777217: "rnd32 16777217 = 16777216"
proof -
  have e: "bexp 16777217 = 24" by (rule bexp_unique) (simp_all add: pow2_def)
  have f: "\<lfloor>(16777217::rat) / 2\<rfloor> = 8388608" by (rule floor_unique) simp_all
  show ?thesis by (simp add: rnd32_def e Let_def pow2_def rne_def f)
qed

lemma rnd32_1006632960: "rnd32 1006632960 = 1006632960"
  using rnd32_repr [of 15 26] by (simp add: pow2_def)

lemma rnd32_503316480: "rnd32 503316480 = 503316480"
  using rnd32_repr [of 15 25] by (simp add: pow2_def)

lemma C6_counterexample_state_reachable:
  "reachable (startup\<lparr>tachCount := 16777217\<rparr>) \<and>
   reachable3 (startup3\<lparr>tachPulseCount := 16777217\<rparr>)"
  using reachable_edges [OF reachable.start, of 16777217]
    reachable3_edges [OF reachable3.start3, of 16777217]
  by (simp add: startup_def startup3_def setFanSpeed_def setCloudlineSpeed_def Let_def
      constrain_def FAN_OFF_def)

text \<open>
  The claim as stated fails for large pulse counts: after 16777217 tachometer edges (a
  reachable state) the estimate is 503316480, not 16777217 * 60 / 2 = 503316510, which no
  single-precision number equals.
\<close>

theorem C6_counterexample:
  "(1000::ulong) \<le> 1000 - lastRPMTime (startup\<lparr>tachCount := 16777217\<rparr>) \<and>
   rpm (updateRPM 1000 1000 (startup\<lparr>tachCount := 16777217\<rparr>)) = 503316480 \<and>
   rat_of_nat (unat (tachCount (startup\<lparr>tachCount := 16777217\<rparr>) -
      lastCount (startup\<lparr>tachCount := 16777217\<rparr>))) * 60 / 2 = 503316510 \<and>
   currentRPM (updateRPM3 1000 1000 (startup3\<lparr>tachPulseCount := 16777217\<rparr>)) = 503316480"
  by (simp add: updateRPM_def updateRPM3_def Let_def float_of_ulong_def fmul_def fdiv_def
      startup_def startup3_def setFanSpeed_def setCloudlineSpeed_def constrain_def
      FAN_OFF_def rnd32_16777217 rnd32_1006632960 rnd32_503316480)

text \<open>
  Claim C7 fails on the five-level sketch: the call of \<^verbatim>\<open>updateRPM\<close> sits inside the
  block that is skipped in manual mode. After the command low at 2000 ms and two
  tachometer edges, the pass at 4000 ms leaves the estimate at 0 and the window start at
  2000 ms, where a call of \<^verbatim>\<open>updateRPM\<close> would have produced 60; the three-wire sketch,
  given the same inputs, updates its estimate to 60.
\<close>

theorem C7_manual_mode_skips_rpm_update:
  "map_option manualMode
     (loop (input_at 2000 (wires False False False False) (Some ''low'')) startup) = Some True \<and>
   map_option rpm
     (Option.bind
        (map_option (tachISR \<circ> tachISR)
           (loop (input_at 2000 (wires False False False False) (Some ''low'')) startup))
        (loop (input_at 4000 (wires False False False False) None))) = Some 0 \<and>
   map_option lastRPMTime
     (Option.bind
        (map_option (tachISR \<circ> tachISR)
           (loop (input_at 2000 (wires False False False False) (Some ''low'')) startup))
        (loop (input_at 4000 (wires False False False False) None))) = Some 2000 \<and>
   map_option (rpm \<circ> updateRPM 4000 4000 \<circ> tachISR \<circ> tachISR)
     (loop (input_at 2000 (wires False False False False) (Some ''low'')) startup) = Some 60 \<and>
   currentRPM
     (loop3 (input_at 4000 (wires3 False False False) None)
        (tachISR3 (tachISR3
           (loop3 (input_at 2000 (wires3 False False False) (Some ''low'')) startup3)))) = 60"
proof -
  have n: "toLowerCase (trim ''low'') = ''low''" "toLowerCase (trim ''high'') = ''high''"
    "toLowerCase (trim ''test'') = ''test''" "toLowerCase (trim ''auto'') = ''auto''"
    by code_simp+
  show ?thesis
    by (simp add: loop_def loop3_def checkInputs_eq checkInputs3_def statusTick_def
        statusTick3_def handleCommands_def handleSerialCommands_def runTest_eq Let_def n
        FAN_SPEEDS_at_Some input_at_def wires_def wires3_def readSpeedLevel_def
        readThermadorSpeed_def startup_def startup3_def setFanSpeed_0 FAN_OFF_def
        updateCloudlineSpeed_def setCloudlineSpeed_def constrain_def updateRPM_def
        updateRPM3_def updateLED_def updateStatusLED_def tachISR_def tachISR3_def
        rpm_exact_ulong)
qed

subsection \<open>Manual override and return to automatic mode\<close>

lemma FAN_SPEEDS_constrain:
  assumes "0 \<le> L" "L \<le> 4"
  shows "constrain (FAN_SPEEDS ! nat L) (rnd32 0) (rnd32 1) = FAN_SPEEDS ! nat L"
proof -
  from level_cases [OF assms] show ?thesis
    by (elim disjE) (simp_all add: FAN_SPEEDS_eq constrain_def)
qed

lemma toDuty_eq:
  assumes "0 \<le> L" "L \<le> 4"
  shows "toDuty L = Some (OCR1A (setFanSpeed (FAN_SPEEDS ! nat L) s))"
  using assms OCR1A_setFanSpeed [of "FAN_SPEEDS ! nat L" s]
  by (simp add: toDuty_def FAN_SPEEDS_at_Some)

lemma loop_command:
  assumes "serial_in i = Some str" "commandLevel (toLowerCase (trim str)) = Some L"
  shows "\<exists>s'. loop i s = Some s' \<and> manualMode s' \<and> speedLevel s' = L \<and>
           Some (OCR1A s') = toDuty L \<and> currentSpeed s' = FAN_SPEEDS ! nat L"
proof -
  from commandLevel_range [OF assms(2)] have L: "0 \<le> L" "L \<le> 4" by simp_all
  obtain s1 where 1: "checkInputs i s = Some s1" by (simp add: checkInputs_eq)
  define s2 where
    "s2 = (setFanSpeed (FAN_SPEEDS ! nat L) ((statusTick i s1)\<lparr>speedLevel := L\<rparr>))\<lparr>manualMode := True\<rparr>"
  have 2: "handleCommands (serial_in i) (statusTick i s1) = Some s2"
    by (simp only: assms(1) handleCommands_speed [OF assms(2)] s2_def)
  have 3: "loop i s = Some (updateLED (millis_led i) s2)"
    by (simp add: loop_def 1 2)
  have "Some (OCR1A s2) = toDuty L"
    by (simp add: s2_def toDuty_eq [OF L, of "(statusTick i s1)\<lparr>speedLevel := L\<rparr>"])
  moreover have "currentSpeed s2 = FAN_SPEEDS ! nat L"
    by (simp add: s2_def currentSpeed_setFanSpeed FAN_SPEEDS_constrain [OF L] del: rnd32_0 rnd32_1)
  moreover have "manualMode s2" "speedLevel s2 = L" by (simp_all add: s2_def)
  ultimately show ?thesis by (simp add: 3)
qed

lemma loop_manual_quiet:
  assumes "manualMode s" "quiet (serial_in i)"
  shows "loop i s = Some (updateLED (millis_led i) (statusTick i s))"
  using assms by (simp add: loop_def checkInputs_eq handleCommands_quiet)

lemma run_manual_quiet:
  assumes "manualMode s" "\<forall>i \<in> set js. quiet (serial_in i)"
  shows "\<exists>s'. run js s = Some s' \<and> manualMode s' \<and> speedLevel s' = speedLevel s \<and>
           OCR1A s' = OCR1A s \<and> currentSpeed s' = currentSpeed s"
  using assms
proof (induction js arbitrary: s)
  case Nil
  then show ?case by simp
next
  case (Cons j js)
  define s1 where "s1 = updateLED (millis_led j) (statusTick j s)"
  have 1: "loop j s = Some s1"
    using Cons.prems by (simp add: loop_manual_quiet s1_def)
  have "manualMode s1" using Cons.prems(1) by (simp add: s1_def)
  moreover have "\<forall>i \<in> set js. quiet (serial_in i)" using Cons.prems(2) by simp
  ultimately obtain s' where
    "run js s1 = Some s'" "manualMode s'" "speedLevel s' = speedLevel s1"
    "OCR1A s' = OCR1A s1" "currentSpeed s' = currentSpeed s1"
    using Cons.IH by blast
  then show ?case by (simp add: 1 s1_def)
qed

lemma loop3_command:
  assumes "serial_in i = Some str" "commandLevel (toLowerCase (trim str)) = Some L" "L \<le> 3"
  shows "currentSpeedLevel (loop3 i t) = L \<and> OCR1A3 (loop3 i t) = toDuty3 L"
  by (simp add: loop3_def assms(1) handleSerialCommands_speed [OF assms(2,3)]
      OCR1A3_updateCloudlineSpeed)

text \<open>
  Claim C3, as amended. In the five-level sketch a pass of the loop that receives a speed
  command (off, low, medium, high, max) ends in manual mode with the commanded level and
  its duty, whatever the speed pins, the clock readings and the state before; from a
  manual state, passes that receive no line, or a line that is not a speed, auto or test
  command, keep the mode, the level and the duty. In the three-wire sketch, which has no
  manual mode, a pass that receives a speed command (off, low, medium, high) ends with
  the commanded level and its duty.
\<close>

theorem C3_manual_override:
  "(serial_in i = Some str \<and> commandLevel (toLowerCase (trim str)) = Some L \<longrightarrow>
      (\<exists>s'. loop i s = Some s' \<and> manualMode s' \<and> speedLevel s' = L \<and>
         Some (OCR1A s') = toDuty L)) \<and>
   (manualMode s \<and> (\<forall>j \<in> set js. quiet (serial_in j)) \<longrightarrow>
      (\<exists>s'. run js s = Some s' \<and> manualMode s' \<and> speedLevel s' = speedLevel s \<and>
         OCR1A s' = OCR1A s)) \<and>
   (serial_in i3 = Some str \<and> commandLevel (toLowerCase (trim str)) = Some L \<and> L \<le> 3 \<longrightarrow>
      currentSpeedLevel (loop3 i3 t) = L \<and> OCR1A3 (loop3 i3 t) = toDuty3 L)"
proof (intro conjI impI)
  assume "serial_in i = Some str \<and> commandLevel (toLowerCase (trim str)) = Some L"
  then show "\<exists>s'. loop i s = Some s' \<and> manualMode s' \<and> speedLevel s' = L \<and>
         Some (OCR1A s') = toDuty L"
    using loop_command [of i str L s] by blast
next
  assume "manualMode s \<and> (\<forall>j \<in> set js. quiet (serial_in j))"
  then show "\<exists>s'. run js s = Some s' \<and> manualMode s' \<and> speedLevel s' = speedLevel s \<and>
         OCR1A s' = OCR1A s"
    using run_manual_quiet [of s js] by blast
next
  assume a: "serial_in i3 = Some str \<and> commandLevel (toLowerCase (trim str)) = Some L \<and> L \<le> 3"
  then show "currentSpeedLevel (loop3 i3 t) = L" using loop3_command [of i3 str L t] by blast
  from a show "OCR1A3 (loop3 i3 t) = toDuty3 L" using loop3_command [of i3 str L t] by blast
qed

theorem C3_manual_override_witness:
  "commandLevel (toLowerCase (trim '' Low '')) = Some 1 \<and>
   manualMode (startup\<lparr>manualMode := True\<rparr>) \<and>
   quiet (serial_in (input_at 500 (wires False False False True) None)) \<and>
   quiet (serial_in (input_at 900 (wires False False True False) (Some ''status''))) \<and>
   (\<exists>s'. loop (input_at 1000 (wires False False False True) (Some '' Low ''))
            (startup\<lparr>manualMode := True\<rparr>) = Some s' \<and>
         manualMode s' \<and> speedLevel s' = 1 \<and> Some (OCR1A s') = toDuty 1) \<and>
   (\<exists>s'. run [input_at 500 (wires False False False True) None,
              input_at 900 (wires False False True False) (Some ''status'')]
            (startup\<lparr>manualMode := True\<rparr>) = Some s' \<and>
         manualMode s' \<and> speedLevel s' = speedLevel (startup\<lparr>manualMode := True\<rparr>) \<and>
         OCR1A s' = OCR1A (startup\<lparr>manualMode := True\<rparr>)) \<and>
   currentSpeedLevel (loop3 (input_at 1000 (wires3 False False True) (Some '' Low '')) startup3) = 1 \<and>
   OCR1A3 (loop3 (input_at 1000 (wires3 False False True) (Some '' Low '')) startup3) = toDuty3 1"
proof -
  have low: "commandLevel (toLowerCase (trim '' Low '')) = Some 1"
    by code_simp
  have q1: "quiet (serial_in (input_at 500 (wires False False False True) None))"
    by (simp add: input_at_def quiet_def)
  have q2: "quiet (serial_in (input_at 900 (wires False False True False) (Some ''status'')))"
    by code_simp
  have h1: "serial_in (input_at 1000 (wires False False False True) (Some '' Low '')) = Some '' Low '' \<and>
      commandLevel (toLowerCase (trim '' Low '')) = Some 1"
    using low by (simp add: input_at_def)
  have h2: "manualMode (startup\<lparr>manualMode := True\<rparr>) \<and>
      (\<forall>j \<in> set [input_at 500 (wires False False False True) None,
              input_at 900 (wires False False True False) (Some ''status'')]. quiet (serial_in j))"
    using q1 q2 by simp
  have h3: "serial_in (input_at 1000 (wires3 False False True) (Some '' Low '')) = Some '' Low '' \<and>
      commandLevel (toLowerCase (trim '' Low '')) = Some 1 \<and> (1::int) \<le> 3"
    using low by (simp add: input_at_def)
  from C3_manual_override
    [of "input_at 1000 (wires False False False True) (Some '' Low '')" "'' Low ''" 1
        "startup\<lparr>manualMode := True\<rparr>"
        "[input_at 500 (wires False False False True) None,
          input_at 900 (wires False False True False) (Some ''status'')]"
        "input_at 1000 (wires3 False False True) (Some '' Low '')" startup3]
    h1 h2 h3 low q1 q2
  show ?thesis by blast
qed

text \<open>
  The claim as stated fails. In the three-wire sketch the level set by the command low
  at 1000 ms is replaced by the sampled level 0 at 1100 ms, without any auto command.
  In the five-level sketch the command test, received in manual mode at level 3, leaves
  the level at 0 and the mode manual.
\<close>

theorem C3_counterexample:
  "currentSpeedLevel
     (run3 [input_at 1000 (wires3 False False False) (Some ''low'')] startup3) = 1 \<and>
   currentSpeedLevel
     (run3 [input_at 1000 (wires3 False False False) (Some ''low''),
            input_at 1100 (wires3 False False False) None] startup3) = 0 \<and>
   OCR1A3
     (run3 [input_at 1000 (wires3 False False False) (Some ''low''),
            input_at 1100 (wires3 False False False) None] startup3) = 0 \<and>
   map_option speedLevel
     (run [input_at 1000 (wires False False False False) (Some ''high'')] startup) = Some 3 \<and>
   map_option speedLevel
     (run [input_at 1000 (wires False False False False) (Some ''high''),
           input_at 1100 (wires False False False False) (Some ''test'')] startup) = Some 0 \<and>
   map_option manualMode
     (run [input_at 1000 (wires False False False False) (Some ''high''),
           input_at 1100 (wires False False False False) (Some ''test'')] startup) = Some True"
proof -
  have n: "toLowerCase (trim ''low'') = ''low''" "toLowerCase (trim ''high'') = ''high''"
    "toLowerCase (trim ''test'') = ''test''" "toLowerCase (trim ''auto'') = ''auto''"
    by code_simp+
  show ?thesis
    by (simp add: loop_def loop3_def checkInputs_eq checkInputs3_def statusTick_def
        statusTick3_def handleCommands_def handleSerialCommands_def runTest_eq Let_def n
        FAN_SPEEDS_at_Some input_at_def wires_def wires3_def readSpeedLevel_def
        readThermadorSpeed_def startup_def startup3_def setFanSpeed_0 FAN_OFF_def
        updateCloudlineSpeed_def setCloudlineSpeed_def constrain_def updateRPM_def
        updateRPM3_def updateLED_def updateStatusLED_def tachISR_def tachISR3_def
        rpm_exact_ulong)
qed

lemma loop_auto_sample:
  assumes "\<not> manualMode s" "50 < millis_gate i - lastUpdate s" "quiet (serial_in i)"
  shows "\<exists>s'. loop i s = Some s' \<and> \<not> manualMode s' \<and>
     speedLevel s' =
       (if 100 < millis_debounce i - lastChange s then readSpeedLevel (pins_in i)
        else speedLevel s) \<and>
     (readSpeedLevel (pins_in i) \<noteq> speedLevel s \<and> 100 < millis_debounce i - lastChange s \<longrightarrow>
        Some (OCR1A s') = toDuty (readSpeedLevel (pins_in i))) \<and>
     (\<not> 100 < millis_debounce i - lastChange s \<longrightarrow> OCR1A s' = OCR1A s)"
proof -
  define s1 where "s1 = the (checkInputs i s)"
  have 1: "checkInputs i s = Some s1" by (simp add: s1_def checkInputs_eq)
  have 3: "loop i s = Some (updateLED (millis_led i) (statusTick i s1))"
    using assms(3) by (simp add: loop_def 1 handleCommands_quiet)
  have r: "0 \<le> readSpeedLevel (pins_in i)" "readSpeedLevel (pins_in i) \<le> 4"
    using readSpeedLevel_range [of "pins_in i"] by simp_all
  have m: "\<not> manualMode s1" using assms(1) by (simp add: s1_def checkInputs_eq)
  have l: "speedLevel s1 =
       (if 100 < millis_debounce i - lastChange s then readSpeedLevel (pins_in i)
        else speedLevel s)"
    using assms(1,2) by (simp add: s1_def checkInputs_eq)
  have d: "Some (OCR1A s1) = toDuty (readSpeedLevel (pins_in i))"
    if "readSpeedLevel (pins_in i) \<noteq> speedLevel s" "100 < millis_debounce i - lastChange s"
    using assms(1,2) that
    by (simp add: s1_def checkInputs_eq
        toDuty_eq [OF r, of "s\<lparr>lastUpdate := millis_update i, speedLevel := readSpeedLevel (pins_in i)\<rparr>"])
  have k: "OCR1A s1 = OCR1A s" if "\<not> 100 < millis_debounce i - lastChange s"
    using assms(1,2) that by (simp add: s1_def checkInputs_eq)
  from m l d k show ?thesis by (simp add: 3)
qed

text \<open>
  Claim C4, as amended. The command auto clears the manual flag and changes nothing
  else. On the next pass that samples (more than 50 ms after the last sampling pass) the
  raw level is adopted, with its duty, exactly when more than 100 ms have passed since
  \<open>lastChange\<close>, the time of the last change accepted by the sampler, which manual
  commands do not restart; otherwise the level and the duty stay as they are. The
  debounce test is not bypassed.
\<close>

theorem C4_auto_resumption:
  "(toLowerCase (trim str) = ''auto'' \<longrightarrow>
      handleCommands (Some str) s0 = Some (s0\<lparr>manualMode := False\<rparr>)) \<and>
   (\<not> manualMode s \<and> 50 < millis_gate i - lastUpdate s \<and> quiet (serial_in i) \<longrightarrow>
      (\<exists>s'. loop i s = Some s' \<and>
         speedLevel s' =
           (if 100 < millis_debounce i - lastChange s then readSpeedLevel (pins_in i)
            else speedLevel s) \<and>
         (readSpeedLevel (pins_in i) \<noteq> speedLevel s \<and>
          100 < millis_debounce i - lastChange s \<longrightarrow>
            Some (OCR1A s') = toDuty (readSpeedLevel (pins_in i))) \<and>
         (\<not> 100 < millis_debounce i - lastChange s \<longrightarrow> OCR1A s' = OCR1A s)))"
proof (intro conjI impI)
  assume "toLowerCase (trim str) = ''auto''"
  then show "handleCommands (Some str) s0 = Some (s0\<lparr>manualMode := False\<rparr>)"
    by (rule handleCommands_auto)
next
  assume "\<not> manualMode s \<and> 50 < millis_gate i - lastUpdate s \<and> quiet (serial_in i)"
  then show "\<exists>s'. loop i s = Some s' \<and>
         speedLevel s' =
           (if 100 < millis_debounce i - lastChange s then readSpeedLevel (pins_in i)
            else speedLevel s) \<and>
         (readSpeedLevel (pins_in i) \<noteq> speedLevel s \<and>
          100 < millis_debounce i - lastChange s \<longrightarrow>
            Some (OCR1A s') = toDuty (readSpeedLevel (pins_in i))) \<and>
         (\<not> 100 < millis_debounce i - lastChange s \<longrightarrow> OCR1A s' = OCR1A s)"
    using loop_auto_sample [of s i] by blast
qed

theorem C4_auto_resumption_witness:
  "toLowerCase (trim ''AUTO'') = ''auto'' \<and>
   handleCommands (Some ''AUTO'') (startup\<lparr>manualMode := True\<rparr>) =
     Some (startup\<lparr>manualMode := True, manualMode := False\<rparr>) \<and>
   \<not> manualMode startup \<and>
   50 < millis_gate (input_at 200 (wires True False False False) None) - lastUpdate startup \<and>
   quiet (serial_in (input_at 200 (wires True False False False) None)) \<and>
   (\<exists>s'. loop (input_at 200 (wires True False False False) None) startup = Some s' \<and>
      speedLevel s' = 1 \<and> Some (OCR1A s') = toDuty 1)"
proof -
  have a: "toLowerCase (trim ''AUTO'') = ''auto''" by code_simp
  have m: "\<not> manualMode startup" by (simp add: startup_def)
  have g: "50 < millis_gate (input_at 200 (wires True False False False) None) - lastUpdate startup"
    by (simp add: startup_def input_at_def)
  have q: "quiet (serial_in (input_at 200 (wires True False False False) None))"
    by (simp add: input_at_def quiet_def)
  have d: "100 < millis_debounce (input_at 200 (wires True False False False) None) - lastChange startup"
    by (simp add: startup_def input_at_def)
  have r: "readSpeedLevel (pins_in (input_at 200 (wires True False False False) None)) = 1"
    by (simp add: input_at_def wires_def readSpeedLevel_def)
  have l: "speedLevel startup = 0" by (simp add: startup_def)
  from C4_auto_resumption
    [of "''AUTO''" "startup\<lparr>manualMode := True\<rparr>" startup
        "input_at 200 (wires True False False False) None"] a m g q d r l
  show ?thesis by auto
qed

text \<open>
  The claim as stated fails: the sampler accepts level 1 at 200 ms, the command high
  arrives at 210 ms and the command auto at 220 ms; the first sample after that, taken
  at 260 ms, reads level 1 and is rejected by the debounce test, so that the sketch is
  in auto mode at the manual level 3.
\<close>

theorem C4_counterexample:
  "map_option speedLevel
     (run [input_at 200 (wires True False False False) None,
           input_at 210 (wires True False False False) (Some ''high''),
           input_at 220 (wires True False False False) (Some ''auto''),
           input_at 260 (wires True False False False) None] startup) = Some 3 \<and>
   map_option manualMode
     (run [input_at 200 (wires True False False False) None,
           input_at 210 (wires True False False False) (Some ''high''),
           input_at 220 (wires True False False False) (Some ''auto''),
           input_at 260 (wires True False False False) None] startup) = Some False \<and>
   map_option lastUpdate
     (run [input_at 200 (wires True False False False) None,
           input_at 210 (wires True False False False) (Some ''high''),
           input_at 220 (wires True False False False) (Some ''auto''),
           input_at 260 (wires True False False False) None] startup) = Some 260 \<and>
   readSpeedLevel (wires True False False False) = 1"
proof -
  have n: "toLowerCase (trim ''low'') = ''low''" "toLowerCase (trim ''high'') = ''high''"
    "toLowerCase (trim ''test'') = ''test''" "toLowerCase (trim ''auto'') = ''auto''"
    by code_simp+
  show ?thesis
    by (simp add: loop_def loop3_def checkInputs_eq checkInputs3_def statusTick_def
        statusTick3_def handleCommands_def handleSerialCommands_def runTest_eq Let_def n
        FAN_SPEEDS_at_Some input_at_def wires_def wires3_def readSpeedLevel_def
        readThermadorSpeed_def startup_def startup3_def setFanSpeed_0 FAN_OFF_def
        updateCloudlineSpeed_def setCloudlineSpeed_def constrain_def updateRPM_def
        updateRPM3_def updateLED_def updateStatusLED_def tachISR_def tachISR3_def
        rpm_exact_ulong)
qed

end
